theory Spec2Isabelle
  imports Main "HOL-Library.AList" "HOL-Library.Char_ord" "HOL-Library.List_Lexorder"
    "HOL-Library.Multiset"
begin

section \<open>Data model (actions/common.go)\<close>

text \<open>
  Go strings are byte strings and are modelled as \<open>string\<close>; Go's \<open>int\<close> and
  \<open>int64\<close> values are only compared and printed by this code, never added up to a
  value that could wrap (the counters of the resolver count list elements), so they are
  modelled as \<open>int\<close>.  An \<open>error\<close> value of Go is its message; a panic is kept apart.
\<close>

datatype error = Error string | Panic string

record Source =
  SkipSSLVerification :: bool
  GithubEndpoint :: string
  Repository :: string
  DisableGitLfs :: bool
  AccessToken :: string
  Username :: string
  Password :: string
  OnlyMergeable :: bool
  States :: "string list"
  Labels :: "string list"
  MinApprovals :: int
  ApproverComments :: "string list"
  ApproverTeams :: "string list"
  MinReviews :: int
  ReviewerComments :: "string list"
  ReviewerTeams :: "string list"
  ReviewStates :: "string list"
  IgnoreStates :: "string list"
  IgnoreLabels :: "string list"

record Response =
  ReviewID :: string
  CommentID :: string
  CreatedAt :: string

text \<open>
  \<open>Version\<close>: the exported fields travel as JSON, the unexported ones
  (\<open>approvedBy\<close>, \<open>reviewedBy\<close>, \<open>lastUpdated\<close>) live only inside one run.  A nil
  slice and an empty slice are both the empty list.
\<close>

record Version =
  PrID :: string
  ApprovedBy :: string
  approvedBy :: "Response list"
  ReviewedBy :: string
  reviewedBy :: "Response list"
  lastUpdated :: int

record MetadataField =
  Name :: string
  Value :: string

type_synonym Metadata = "MetadataField list"

definition Add :: "Metadata \<Rightarrow> string \<Rightarrow> string \<Rightarrow> Metadata" where
  "Add m name val = m @ [\<lparr>Name = name, Value = val\<rparr>]"

fun Get :: "Metadata \<Rightarrow> string \<Rightarrow> error + string" where
  "Get [] name = Inl (Error (''metadata index does not exist: '' @ name))"
| "Get (i # m) name = (if name = Name i then Inr (Value i) else Get m name)"

section \<open>Library functions the code calls\<close>

text \<open>
  \<open>strconv.FormatInt(n, 10)\<close>, \<open>strconv.Itoa\<close> and the verb \<open>%d\<close> of \<open>fmt\<close>: the
  decimal digits of the number, most significant first, after a minus sign when it is
  negative.
\<close>

definition digitChar :: "nat \<Rightarrow> char" where
  "digitChar d = ''0123456789'' ! d"

fun natStr :: "nat \<Rightarrow> string" where
  "natStr n = (if n < 10 then [digitChar n] else natStr (n div 10) @ [digitChar (n mod 10)])"

declare natStr.simps [simp del]

definition FormatInt :: "int \<Rightarrow> string" where
  "FormatInt i = (if i < 0 then CHR ''-'' # natStr (nat (- i)) else natStr (nat i))"

definition Itoa :: "int \<Rightarrow> string" where
  "Itoa i = FormatInt i"

text \<open>
  \<open>strings.ToLower\<close> on ASCII text: the letters A to Z are mapped to a to z, every
  other byte is kept.  (Go also maps upper-case letters beyond ASCII; the review states
  of the hosting platform and of the configuration are ASCII words.)
\<close>

definition lowerChar :: "char \<Rightarrow> char" where
  "lowerChar c = (let n = (of_char c :: nat) in if 65 \<le> n \<and> n \<le> 90 then char_of (n + 32) else c)"

definition ToLower :: "string \<Rightarrow> string" where
  "ToLower s = map lowerChar s"

text \<open>
  Package \<open>regexp\<close> is a parameter of the model.  \<open>Match\<close> is
  \<open>regexp.Match(pattern, body)\<close> with its error dropped, as the code drops it.
  \<open>MustCompile\<close> gives the compiled expression, \<open>None\<close> where Go panics on a pattern
  that does not parse.  A compiled expression is known by the two methods the code
  calls: \<open>SubexpNames\<close>, the names of the groups with the empty name at index 0 and at
  every unnamed group, and \<open>FindStringSubmatch\<close>, the texts of the leftmost match and
  of its groups, or nil (the empty list) when there is no match.
\<close>

record Regexp =
  SubexpNames :: "string list"
  FindStringSubmatch :: "string \<Rightarrow> string list"

record regexp =
  Match :: "string \<Rightarrow> string \<Rightarrow> bool"
  MustCompile :: "string \<Rightarrow> Regexp option"

section \<open>Predicates of the source configuration (actions/common.go)\<close>

text \<open>\<open>requestsState\<close>: two loops over the configured lists, each left at its first hit.\<close>

fun statesLoop :: "string list \<Rightarrow> string \<Rightarrow> bool \<Rightarrow> bool" where
  "statesLoop [] state ret = ret"
| "statesLoop (s # ss) state ret = (if s = state then True else statesLoop ss state ret)"

fun ignoreStatesLoop :: "string list \<Rightarrow> string \<Rightarrow> bool \<Rightarrow> bool" where
  "ignoreStatesLoop [] state ret = ret"
| "ignoreStatesLoop (s # ss) state ret = (if s = state then False else ignoreStatesLoop ss state ret)"

definition requestsState :: "Source \<Rightarrow> string \<Rightarrow> bool" where
  "requestsState source state =
     (let ret = False;
          ret = (if length (States source) = 0 then state = ''open''
                 else statesLoop (States source) state ret)
      in ignoreStatesLoop (IgnoreStates source) state ret)"

fun reviewStatesLoop :: "string list \<Rightarrow> string \<Rightarrow> bool" where
  "reviewStatesLoop [] state = False"
| "reviewStatesLoop (s # ss) state = (if state = ToLower s then True else reviewStatesLoop ss state)"

definition requestsReviewState :: "Source \<Rightarrow> string \<Rightarrow> bool" where
  "requestsReviewState source state = reviewStatesLoop (ReviewStates source) (ToLower state)"

text \<open>
  \<open>requestsLabels\<close>: the labels of the pull request are given by their names
  (\<open>rr.GetName()\<close>).  Both nested loops are left at the first equal pair.
\<close>

fun labelLoop :: "string \<Rightarrow> string list \<Rightarrow> bool" where
  "labelLoop rl [] = False"
| "labelLoop rl (rr # rrs) = (if rl = rr then True else labelLoop rl rrs)"

fun includeLoop :: "string list \<Rightarrow> string list \<Rightarrow> bool \<Rightarrow> bool" where
  "includeLoop [] labels ret = ret"
| "includeLoop (rl # rls) labels ret = (if labelLoop rl labels then True else includeLoop rls labels ret)"

fun excludeLoop :: "string list \<Rightarrow> string list \<Rightarrow> bool \<Rightarrow> bool" where
  "excludeLoop [] labels ret = ret"
| "excludeLoop (rl # rls) labels ret = (if labelLoop rl labels then False else excludeLoop rls labels ret)"

definition requestsLabels :: "Source \<Rightarrow> string list \<Rightarrow> bool" where
  "requestsLabels source labels =
     (let ret = False;
          ret = (if length (Labels source) = 0 then True
                 else includeLoop (Labels source) labels ret)
      in excludeLoop (IgnoreLabels source) labels ret)"

text \<open>The regex predicates run through every pattern; no pattern ends the loop.\<close>

fun regexLoop :: "regexp \<Rightarrow> string list \<Rightarrow> string \<Rightarrow> bool \<Rightarrow> bool" where
  "regexLoop re [] comment ret = ret"
| "regexLoop re (c # cs) comment ret =
     regexLoop re cs comment (if Match re c comment then True else ret)"

definition requestsReviewerRegex :: "regexp \<Rightarrow> Source \<Rightarrow> string \<Rightarrow> bool" where
  "requestsReviewerRegex re source comment =
     (let ret = False
      in if length (ReviewerComments source) = 0 then True
         else regexLoop re (ReviewerComments source) comment ret)"

definition requestsApproverRegex :: "regexp \<Rightarrow> Source \<Rightarrow> string \<Rightarrow> bool" where
  "requestsApproverRegex re source comment =
     (let ret = False
      in if length (ApproverComments source) = 0 then True
         else regexLoop re (ApproverComments source) comment ret)"

definition hasMinReviewers :: "Source \<Rightarrow> int \<Rightarrow> bool" where
  "hasMinReviewers source numReviewers =
     (let min = 1;
          min = (if MinReviews source > min then MinReviews source else min)
      in numReviewers \<ge> min)"

definition hasMinApprovers :: "Source \<Rightarrow> int \<Rightarrow> bool" where
  "hasMinApprovers source numApprovers =
     (let min = 1;
          min = (if MinApprovals source > min then MinApprovals source else min)
      in numApprovers \<ge> min)"

section \<open>The hosting client (package api)\<close>

text \<open>
  What the code reads of the values of the hosting platform's library.  The code
  dereferences these fields without a test, so they are modelled as present.  A time
  is known by \<open>Unix()\<close> and by the text that \<open>%v\<close> prints for it.
\<close>

record Time =
  Unix :: int
  timeString :: string

record User =
  User_Login :: string
  User_ID :: int
  User_AvatarURL :: string
  User_HTMLURL :: string

record Comment =
  Comment_ID :: int
  Comment_Body :: string
  Comment_User :: User
  Comment_CreatedAt :: Time
  Comment_UpdatedAt :: Time
  Comment_AuthorAssociation :: string
  Comment_HTMLURL :: string

record Review =
  Review_ID :: int
  Review_Body :: string
  Review_User :: User
  Review_State :: string
  Review_SubmittedAt :: Time
  Review_AuthorAssociation :: string
  Review_HTMLURL :: string

record Branch =
  Branch_Ref :: string
  Branch_SHA :: string
  Branch_GitURL :: string

record PullRequest =
  Pull_Number :: int
  Pull_State :: string
  Pull_Labels :: "string list"
  Pull_Mergeable :: bool
  Pull_Draft :: bool
  Pull_Head :: Branch
  Pull_Base :: Branch

text \<open>
  The client is a parameter: each method gives its result or the message of its error.
  \<open>UserMemberOfTeam\<close> is the \<open>ok\<close> of the call, the code drops its error.
\<close>

record GithubClient =
  ListPullRequests :: "string + PullRequest list"
  ListTeamMembers :: "string \<Rightarrow> string + string list"
  ListPullRequestComments :: "int \<Rightarrow> string + Comment list"
  ListPullRequestReviews :: "int \<Rightarrow> string + Review list"
  UserMemberOfTeam :: "string \<Rightarrow> string \<Rightarrow> bool"
  GetPullRequest :: "int \<Rightarrow> string + PullRequest"
  GetPullRequestReview :: "int \<Rightarrow> int \<Rightarrow> string + Review"
  GetPullRequestComment :: "int \<Rightarrow> string + Comment"

type_synonym api = "string \<Rightarrow> string \<Rightarrow> bool \<Rightarrow> string \<Rightarrow> string + GithubClient"

definition NewGithubClient :: "api \<Rightarrow> Source \<Rightarrow> string + GithubClient" where
  "NewGithubClient api source =
     api (Repository source) (AccessToken source) (SkipSSLVerification source) (GithubEndpoint source)"

text \<open>
  The team predicates as actions/common.go declares them, on the client and the login.
  (The scanner passes the pull request as one more argument, which no declaration
  under the sources takes.)
\<close>

fun teamLoop :: "GithubClient \<Rightarrow> string list \<Rightarrow> string \<Rightarrow> bool" where
  "teamLoop c [] username = False"
| "teamLoop c (t # ts) username = (if UserMemberOfTeam c username t then True else teamLoop c ts username)"

definition requestsReviewerTeam :: "Source \<Rightarrow> GithubClient \<Rightarrow> string \<Rightarrow> bool" where
  "requestsReviewerTeam source c username =
     (if length (ReviewerTeams source) = 0 then True
      else teamLoop c (ReviewerTeams source) username)"

definition requestsApproverTeam :: "Source \<Rightarrow> GithubClient \<Rightarrow> string \<Rightarrow> bool" where
  "requestsApproverTeam source c username =
     (if length (ApproverTeams source) = 0 then True
      else teamLoop c (ApproverTeams source) username)"

text \<open>
  Modelled from the spec: \<open>requestsApproveState\<close>, which the scanner calls on the
  word \<open>comment\<close> and on the state of a review, has no declaration under the sources.
  The spec has approvals gated by the regex and the team alone, with no allow-list of
  states, so the predicate accepts every state.
\<close>

definition requestsApproveState :: "Source \<Rightarrow> string \<Rightarrow> bool" where
  "requestsApproveState source state = True"

section \<open>Package encoding/json on the types of this program\<close>

text \<open>
  \<open>json.Marshal\<close> writes a string between double quotes.  With HTML escaping, which
  \<open>Marshal\<close> has on, a byte below 0x80 is written as it is when it is printable and
  none of the double quote, the backslash, \<open><\<close>, \<open>>\<close> and \<open>&\<close>; the double quote and
  the backslash get a backslash in front; line feed, carriage return and tab become
  \<open>\n\<close>, \<open>\r\<close>, \<open>\t\<close>; every other byte below 0x80 becomes \<open>\u00\<close> and its two
  hexadecimal digits (later releases of Go write backspace and form feed as \<open>\b\<close>
  and \<open>\f\<close>, which the decoder reads as the same bytes).  A byte from 0x80 on is
  copied, as Go copies well-formed UTF-8 (Go replaces ill-formed UTF-8 and escapes
  U+2028 and U+2029: the theorems below speak of ASCII text only, which is what the
  scanner writes).
\<close>

definition hexDigit :: "nat \<Rightarrow> char" where
  "hexDigit d = ''0123456789abcdef'' ! d"

definition htmlSafe :: "char \<Rightarrow> bool" where
  "htmlSafe b = (32 \<le> (of_char b :: nat) \<and> (of_char b :: nat) < 128 \<and>
     b \<noteq> CHR 0x22 \<and> b \<noteq> CHR 0x5C \<and> b \<noteq> CHR ''<'' \<and> b \<noteq> CHR ''>'' \<and> b \<noteq> CHR ''&'')"

definition escapeByte :: "char \<Rightarrow> string" where
  "escapeByte b =
     (if 128 \<le> (of_char b :: nat) then [b]
      else if htmlSafe b then [b]
      else if b = CHR 0x5C \<or> b = CHR 0x22 then [CHR 0x5C, b]
      else if b = CHR 0x0A then [CHR 0x5C, CHR ''n'']
      else if b = CHR 0x0D then [CHR 0x5C, CHR ''r'']
      else if b = CHR 0x09 then [CHR 0x5C, CHR ''t'']
      else [CHR 0x5C, CHR ''u'', CHR ''0'', CHR ''0'',
            hexDigit (of_char b div 16), hexDigit (of_char b mod 16)])"

definition quote :: "string \<Rightarrow> string" where
  "quote s = CHR 0x22 # concat (map escapeByte s) @ [CHR 0x22]"

fun joinComma :: "string list \<Rightarrow> string" where
  "joinComma [] = []"
| "joinComma [x] = x"
| "joinComma (x # y # ys) = x @ '','' @ joinComma (y # ys)"

text \<open>
  A \<open>Response\<close> is written as an object of its three tagged fields in their declared
  order; a slice of them as an array, and as \<open>null\<close> when it is nil, which in the
  scanner (where the slices grow by \<open>append\<close> from nil) is when it is empty.
  \<open>Marshal\<close> has no error on these types.
\<close>

definition Marshal_Response :: "Response \<Rightarrow> string" where
  "Marshal_Response r =
     ''{'' @ quote ''review_id'' @ '':'' @ quote (ReviewID r) @ '','' @
             quote ''comment_id'' @ '':'' @ quote (CommentID r) @ '','' @
             quote ''created_at'' @ '':'' @ quote (CreatedAt r) @ ''}''"

definition Marshal_Responses :: "Response list \<Rightarrow> string" where
  "Marshal_Responses rs =
     (if rs = [] then ''null'' else ''['' @ joinComma (map Marshal_Response rs) @ '']'')"

definition Marshal_Version :: "Version \<Rightarrow> string" where
  "Marshal_Version v =
     ''{'' @ quote ''pr_id'' @ '':'' @ quote (PrID v) @ '','' @
             quote ''approved_by'' @ '':'' @ quote (ApprovedBy v) @ '','' @
             quote ''reviewed_by'' @ '':'' @ quote (ReviewedBy v) @ ''}''"

definition Marshal_MetadataField :: "MetadataField \<Rightarrow> string" where
  "Marshal_MetadataField f =
     ''{'' @ quote ''name'' @ '':'' @ quote (Name f) @ '','' @
             quote ''value'' @ '':'' @ quote (Value f) @ ''}''"

definition Marshal_Metadata :: "Metadata \<Rightarrow> string" where
  "Marshal_Metadata m =
     (if m = [] then ''null'' else ''['' @ joinComma (map Marshal_MetadataField m) @ '']'')"

text \<open>
  \<open>json.Unmarshal\<close> into a slice of \<open>Response\<close>, on the texts that are \<open>null\<close> or an
  array of objects whose members are strings, in ASCII, with white space between the
  tokens.  The decoder reads the text byte by byte (\<open>scanner\<close>), then fills one
  \<open>Response\<close> per object (\<open>decode\<close>): a member is stored in the field whose tag is its
  key, letter case aside, a later member overwrites an earlier one, and a member of
  another key is skipped.  Texts outside this fragment (numbers, nested values, bytes
  from 0x80 on) are refused by the model along with the texts that are no JSON.
\<close>

datatype token = LBracket | RBracket | LBrace | RBrace | Colon | Comma | Null | Str string

datatype mode = Out | N1 | N2 | N3 | InStr string | Esc string | Hex string "nat list"

definition hexVal :: "char \<Rightarrow> nat option" where
  "hexVal c =
     (let n = (of_char c :: nat)
      in if 48 \<le> n \<and> n \<le> 57 then Some (n - 48)
         else if 97 \<le> n \<and> n \<le> 102 then Some (n - 87)
         else if 65 \<le> n \<and> n \<le> 70 then Some (n - 55)
         else None)"

definition scanStep :: "mode \<Rightarrow> token list \<Rightarrow> char \<Rightarrow> (mode \<times> token list) option" where
  "scanStep m toks c =
     (case m of
        Out \<Rightarrow>
          (if c = CHR '' '' \<or> c = CHR 0x09 \<or> c = CHR 0x0A \<or> c = CHR 0x0D then Some (Out, toks)
           else if c = CHR ''['' then Some (Out, toks @ [LBracket])
           else if c = CHR '']'' then Some (Out, toks @ [RBracket])
           else if c = CHR ''{'' then Some (Out, toks @ [LBrace])
           else if c = CHR ''}'' then Some (Out, toks @ [RBrace])
           else if c = CHR '':'' then Some (Out, toks @ [Colon])
           else if c = CHR '','' then Some (Out, toks @ [Comma])
           else if c = CHR 0x22 then Some (InStr [], toks)
           else if c = CHR ''n'' then Some (N1, toks)
           else None)
      | N1 \<Rightarrow> (if c = CHR ''u'' then Some (N2, toks) else None)
      | N2 \<Rightarrow> (if c = CHR ''l'' then Some (N3, toks) else None)
      | N3 \<Rightarrow> (if c = CHR ''l'' then Some (Out, toks @ [Null]) else None)
      | InStr acc \<Rightarrow>
          (if c = CHR 0x22 then Some (Out, toks @ [Str acc])
           else if c = CHR 0x5C then Some (Esc acc, toks)
           else if (of_char c :: nat) < 32 \<or> 128 \<le> (of_char c :: nat) then None
           else Some (InStr (acc @ [c]), toks))
      | Esc acc \<Rightarrow>
          (if c = CHR 0x22 \<or> c = CHR 0x5C \<or> c = CHR ''/'' then Some (InStr (acc @ [c]), toks)
           else if c = CHR ''b'' then Some (InStr (acc @ [CHR 0x08]), toks)
           else if c = CHR ''f'' then Some (InStr (acc @ [CHR 0x0C]), toks)
           else if c = CHR ''n'' then Some (InStr (acc @ [CHR 0x0A]), toks)
           else if c = CHR ''r'' then Some (InStr (acc @ [CHR 0x0D]), toks)
           else if c = CHR ''t'' then Some (InStr (acc @ [CHR 0x09]), toks)
           else if c = CHR ''u'' then Some (Hex acc [], toks)
           else None)
      | Hex acc ds \<Rightarrow>
          (case hexVal c of
             None \<Rightarrow> None
           | Some d \<Rightarrow>
               if length ds < 3 then Some (Hex acc (ds @ [d]), toks)
               else (let n = foldl (\<lambda>x y. 16 * x + y) 0 (ds @ [d])
                     in if n < 128 then Some (InStr (acc @ [char_of n]), toks) else None)))"

fun scanner :: "mode \<Rightarrow> token list \<Rightarrow> string \<Rightarrow> token list option" where
  "scanner m toks [] = (if m = Out then Some toks else None)"
| "scanner m toks (c # cs) =
     (case scanStep m toks c of
        None \<Rightarrow> None
      | Some (m', toks') \<Rightarrow> scanner m' toks' cs)"

definition setField :: "Response \<Rightarrow> string \<Rightarrow> string \<Rightarrow> Response" where
  "setField r k v =
     (if ToLower k = ''review_id'' then r\<lparr>ReviewID := v\<rparr>
      else if ToLower k = ''comment_id'' then r\<lparr>CommentID := v\<rparr>
      else if ToLower k = ''created_at'' then r\<lparr>CreatedAt := v\<rparr>
      else r)"

datatype expect =
    Start | Done | ElemOrClose | Elem | AfterElem
  | MemberOrClose Response | Member Response | KeyColon Response string
  | MemberValue Response string | AfterMember Response

definition decodeStep :: "expect \<Rightarrow> Response list \<Rightarrow> token \<Rightarrow> (expect \<times> Response list) option" where
  "decodeStep e acc t =
     (case e of
        Start \<Rightarrow>
          (case t of Null \<Rightarrow> Some (Done, []) | LBracket \<Rightarrow> Some (ElemOrClose, []) | _ \<Rightarrow> None)
      | Done \<Rightarrow> None
      | ElemOrClose \<Rightarrow>
          (case t of
             RBracket \<Rightarrow> Some (Done, acc)
           | LBrace \<Rightarrow> Some (MemberOrClose \<lparr>ReviewID = [], CommentID = [], CreatedAt = []\<rparr>, acc)
           | _ \<Rightarrow> None)
      | Elem \<Rightarrow>
          (case t of
             LBrace \<Rightarrow> Some (MemberOrClose \<lparr>ReviewID = [], CommentID = [], CreatedAt = []\<rparr>, acc)
           | _ \<Rightarrow> None)
      | AfterElem \<Rightarrow>
          (case t of Comma \<Rightarrow> Some (Elem, acc) | RBracket \<Rightarrow> Some (Done, acc) | _ \<Rightarrow> None)
      | MemberOrClose r \<Rightarrow>
          (case t of RBrace \<Rightarrow> Some (AfterElem, acc @ [r]) | Str k \<Rightarrow> Some (KeyColon r k, acc) | _ \<Rightarrow> None)
      | Member r \<Rightarrow> (case t of Str k \<Rightarrow> Some (KeyColon r k, acc) | _ \<Rightarrow> None)
      | KeyColon r k \<Rightarrow> (case t of Colon \<Rightarrow> Some (MemberValue r k, acc) | _ \<Rightarrow> None)
      | MemberValue r k \<Rightarrow> (case t of Str v \<Rightarrow> Some (AfterMember (setField r k v), acc) | _ \<Rightarrow> None)
      | AfterMember r \<Rightarrow>
          (case t of Comma \<Rightarrow> Some (Member r, acc) | RBrace \<Rightarrow> Some (AfterElem, acc @ [r]) | _ \<Rightarrow> None))"

fun decode :: "expect \<Rightarrow> Response list \<Rightarrow> token list \<Rightarrow> Response list option" where
  "decode e acc [] = (if e = Done then Some acc else None)"
| "decode e acc (t # ts) =
     (case decodeStep e acc t of
        None \<Rightarrow> None
      | Some (e', acc') \<Rightarrow> decode e' acc' ts)"

definition Unmarshal_Responses :: "string \<Rightarrow> string + Response list" where
  "Unmarshal_Responses s =
     (case scanner Out [] s of
        None \<Rightarrow> Inl ''invalid character''
      | Some toks \<Rightarrow>
          (case decode Start [] toks of
             None \<Rightarrow> Inl ''invalid character''
           | Some rs \<Rightarrow> Inr rs))"

section \<open>The scanner (actions/check.go)\<close>

record CheckRequest =
  check_Source :: Source
  check_Version :: Version

text \<open>
  \<open>touch\<close> is the update of the running time stamp that precedes every \<open>append\<close>;
  the two \<open>Response\<close> values are the literals of the comment loop and of the review
  loop.
\<close>

definition touch :: "int \<Rightarrow> Version \<Rightarrow> Version" where
  "touch t version = (if t > lastUpdated version then version\<lparr>lastUpdated := t\<rparr> else version)"

definition commentResponse :: "Comment \<Rightarrow> Response" where
  "commentResponse comment =
     \<lparr>ReviewID = [],
      CommentID = FormatInt (Comment_ID comment),
      CreatedAt = FormatInt (Unix (Comment_CreatedAt comment))\<rparr>"

definition reviewResponse :: "Review \<Rightarrow> Response" where
  "reviewResponse review =
     \<lparr>ReviewID = FormatInt (Review_ID review),
      CommentID = [],
      CreatedAt = FormatInt (Unix (Review_SubmittedAt review))\<rparr>"

text \<open>
  The body of the comment loop has two blocks.  The first one may leave the iteration
  (\<open>continue\<close>), which is the result \<open>None\<close>; the second block then does not run.
\<close>

definition commentApprover :: "regexp \<Rightarrow> GithubClient \<Rightarrow> Source \<Rightarrow> Comment \<Rightarrow> Version \<Rightarrow> Version option" where
  "commentApprover re client source comment version =
     (if requestsApproverRegex re source (Comment_Body comment) then
        (if requestsApproverTeam source client (User_Login (Comment_User comment)) then
           (if \<not> requestsApproveState source ''comment'' then None
            else
              (let version = touch (Unix (Comment_CreatedAt comment)) version
               in Some (version\<lparr>approvedBy := approvedBy version @ [commentResponse comment]\<rparr>)))
         else Some version)
      else Some version)"

definition commentReviewer :: "regexp \<Rightarrow> GithubClient \<Rightarrow> Source \<Rightarrow> Comment \<Rightarrow> Version \<Rightarrow> Version" where
  "commentReviewer re client source comment version =
     (if requestsReviewerRegex re source (Comment_Body comment) then
        (if requestsReviewerTeam source client (User_Login (Comment_User comment)) then
           (let version = touch (Unix (Comment_CreatedAt comment)) version
            in version\<lparr>reviewedBy := reviewedBy version @ [commentResponse comment]\<rparr>)
         else version)
      else version)"

fun commentsLoop :: "regexp \<Rightarrow> GithubClient \<Rightarrow> Source \<Rightarrow> Comment list \<Rightarrow> Version \<Rightarrow> Version" where
  "commentsLoop re client source [] version = version"
| "commentsLoop re client source (comment # comments) version =
     (case commentApprover re client source comment version of
        None \<Rightarrow> commentsLoop re client source comments version
      | Some version' \<Rightarrow>
          commentsLoop re client source comments (commentReviewer re client source comment version'))"

definition reviewApprover :: "regexp \<Rightarrow> GithubClient \<Rightarrow> Source \<Rightarrow> Review \<Rightarrow> Version \<Rightarrow> Version option" where
  "reviewApprover re client source review version =
     (if requestsApproverRegex re source (Review_Body review) then
        (if requestsApproverTeam source client (User_Login (Review_User review)) then
           (if \<not> requestsApproveState source (Review_State review) then None
            else
              (let version = touch (Unix (Review_SubmittedAt review)) version
               in Some (version\<lparr>approvedBy := approvedBy version @ [reviewResponse review]\<rparr>)))
         else Some version)
      else Some version)"

definition reviewReviewer :: "regexp \<Rightarrow> GithubClient \<Rightarrow> Source \<Rightarrow> Review \<Rightarrow> Version \<Rightarrow> Version" where
  "reviewReviewer re client source review version =
     (if requestsReviewerRegex re source (Review_Body review) then
        (if requestsReviewerTeam source client (User_Login (Review_User review)) then
           (if \<not> requestsReviewState source (Review_State review) then version
            else
              (let version = touch (Unix (Review_SubmittedAt review)) version
               in version\<lparr>reviewedBy := reviewedBy version @ [reviewResponse review]\<rparr>))
         else version)
      else version)"

fun reviewsLoop :: "regexp \<Rightarrow> GithubClient \<Rightarrow> Source \<Rightarrow> Review list \<Rightarrow> Version \<Rightarrow> Version" where
  "reviewsLoop re client source [] version = version"
| "reviewsLoop re client source (review # reviews) version =
     (case reviewApprover re client source review version of
        None \<Rightarrow> reviewsLoop re client source reviews version
      | Some version' \<Rightarrow>
          reviewsLoop re client source reviews (reviewReviewer re client source review version'))"

text \<open>The version of one pull request, before the test of the minimums.\<close>

definition newVersion :: "PullRequest \<Rightarrow> Version" where
  "newVersion pull =
     \<lparr>PrID = Itoa (Pull_Number pull), ApprovedBy = [], approvedBy = [],
      ReviewedBy = [], reviewedBy = [], lastUpdated = 0\<rparr>"

definition skipped :: "Source \<Rightarrow> PullRequest \<Rightarrow> bool" where
  "skipped source pull =
     (if \<not> requestsState source (Pull_State pull) then True
      else if \<not> requestsLabels source (Pull_Labels pull) then True
      else if OnlyMergeable source \<and> \<not> Pull_Mergeable pull then True
      else if Pull_Draft pull then True
      else False)"

definition scanPull :: "regexp \<Rightarrow> GithubClient \<Rightarrow> Source \<Rightarrow> PullRequest \<Rightarrow> string + Version" where
  "scanPull re client source pull =
     (case ListPullRequestComments client (Pull_Number pull) of
        Inl err \<Rightarrow> Inl err
      | Inr comments \<Rightarrow>
          (let version = commentsLoop re client source comments (newVersion pull)
           in case ListPullRequestReviews client (Pull_Number pull) of
                Inl err \<Rightarrow> Inl err
              | Inr reviews \<Rightarrow> Inr (reviewsLoop re client source reviews version)))"

definition encodeVersion :: "Version \<Rightarrow> Version" where
  "encodeVersion version =
     (let version = version\<lparr>ApprovedBy := Marshal_Responses (approvedBy version)\<rparr>
      in version\<lparr>ReviewedBy := Marshal_Responses (reviewedBy version)\<rparr>)"

fun pullsLoop :: "regexp \<Rightarrow> GithubClient \<Rightarrow> Source \<Rightarrow> PullRequest list \<Rightarrow> Version list \<Rightarrow> string + Version list" where
  "pullsLoop re client source [] versions = Inr versions"
| "pullsLoop re client source (pull # pulls) versions =
     (if skipped source pull then pullsLoop re client source pulls versions
      else
        (case scanPull re client source pull of
           Inl err \<Rightarrow> Inl err
         | Inr version \<Rightarrow>
             (if hasMinApprovers source (int (length (approvedBy version))) \<and>
                 hasMinReviewers source (int (length (reviewedBy version)))
              then pullsLoop re client source pulls (versions @ [encodeVersion version])
              else pullsLoop re client source pulls versions)))"

fun teamsLoop :: "GithubClient \<Rightarrow> string list \<Rightarrow> string option" where
  "teamsLoop client [] = None"
| "teamsLoop client (team # teams) =
     (case ListTeamMembers client team of
        Inl err \<Rightarrow> Some err
      | Inr members \<Rightarrow> teamsLoop client teams)"

text \<open>
  \<open>sort.Slice\<close> with the comparison of \<open>lastUpdated\<close>: the versions in ascending
  order of that key.  Go leaves the order of versions with equal keys open; the
  insertion sort of the library keeps them in their order.
\<close>

definition sortSlice :: "Version list \<Rightarrow> Version list" where
  "sortSlice versions = sort_key lastUpdated versions"

definition Check :: "regexp \<Rightarrow> api \<Rightarrow> CheckRequest \<Rightarrow> string + Version list" where
  "Check re api req =
     (case NewGithubClient api (check_Source req) of
        Inl err \<Rightarrow> Inl err
      | Inr client \<Rightarrow>
          (case ListPullRequests client of
             Inl err \<Rightarrow> Inl err
           | Inr pulls \<Rightarrow>
               (case (if length pulls > 0 \<and> length (ReviewerTeams (check_Source req)) > 0
                      then teamsLoop client (ReviewerTeams (check_Source req)) else None) of
                  Some err \<Rightarrow> Inl err
                | None \<Rightarrow>
                    (case pullsLoop re client (check_Source req) pulls [] of
                       Inl err \<Rightarrow> Inl err
                     | Inr versions \<Rightarrow> Inr (sortSlice versions)))))"

section \<open>The resolver (actions/in.go)\<close>

record InParams =
  SourcePath :: string
  GitDepth :: int
  Submodules :: bool
  SkipDownload :: bool
  FetchTags :: bool
  IntegrationTool :: string
  MapMetadata :: bool

record InRequest =
  in_Source :: Source
  in_Version :: Version
  in_Params :: InParams

record InResponse =
  out_Version :: Version
  out_Metadata :: Metadata

text \<open>
  \<open>Matches\<close> is a Go map: here a list of pairs with distinct keys, written by
  \<open>AList.update\<close> and read by \<open>map_of\<close>.  A \<open>range\<close> over the map visits the pairs
  in an order Go leaves open; the model visits them in the order of the list.
\<close>

record Message =
  msg_CommentID :: int
  msg_ReviewID :: int
  Body :: string
  msg_CreatedAt :: Time
  UpdatedAt :: Time
  AuthorAssociation :: string
  HTMLURL :: string
  UserLogin :: string
  UserID :: int
  UserAvatarURL :: string
  UserHTMLURL :: string
  Matches :: "(string \<times> string) list"

record InMetadata =
  PRID :: int
  PRHeadRef :: string
  PRHeadSHA :: string
  PRBaseRef :: string
  PRBaseSHA :: string
  TotalApprovals :: int
  TotalReviews :: int

definition zeroTime :: Time where
  "zeroTime = \<lparr>Unix = - 62135596800, timeString = ''0001-01-01 00:00:00 +0000 UTC''\<rparr>"

text \<open>
  \<open>strconv.ParseInt(s, 10, 64)\<close> with its error dropped, as every call of the code
  drops it: 0 for a text that is no signed decimal number, the nearest bound of the
  64-bit range for a number beyond it.
\<close>

definition isDigit :: "char \<Rightarrow> bool" where
  "isDigit c = (48 \<le> (of_char c :: nat) \<and> (of_char c :: nat) \<le> 57)"

definition digitsValue :: "string \<Rightarrow> int" where
  "digitsValue ds = foldl (\<lambda>n c. 10 * n + (int (of_char c) - 48)) 0 ds"

definition ParseInt :: "string \<Rightarrow> int" where
  "ParseInt s =
     (let neg = (s \<noteq> [] \<and> hd s = CHR ''-'');
          ds = (if s \<noteq> [] \<and> (hd s = CHR ''+'' \<or> hd s = CHR ''-'') then tl s else s)
      in if ds = [] \<or> \<not> list_all isDigit ds then 0
         else (let un = digitsValue ds
               in if \<not> neg \<and> un \<ge> 2 ^ 63 then 2 ^ 63 - 1
                  else if neg \<and> un > 2 ^ 63 then - (2 ^ 63)
                  else if neg then - un else un))"

text \<open>
  \<open>serializeStruct\<close> walks the fields of a struct by reflection, in their declared
  order, with the JSON tag as the name and the \<open>%v\<close> text as the value.  It is called
  on two types, so it is written out for each.  \<open>%v\<close> prints a map as \<open>map[k:v ...]\<close>
  with the keys in ascending order.
\<close>

definition serializeStruct_InMetadata :: "InMetadata \<Rightarrow> Metadata" where
  "serializeStruct_InMetadata meta =
     (let res = [];
          res = Add res ''pr_id'' (FormatInt (PRID meta));
          res = Add res ''pr_head_ref'' (PRHeadRef meta);
          res = Add res ''pr_head_sha'' (PRHeadSHA meta);
          res = Add res ''pr_base_ref'' (PRBaseRef meta);
          res = Add res ''pr_base_sha'' (PRBaseSHA meta);
          res = Add res ''total_approvals'' (FormatInt (TotalApprovals meta));
          res = Add res ''total_reviews'' (FormatInt (TotalReviews meta))
      in res)"

fun joinSpace :: "string list \<Rightarrow> string" where
  "joinSpace [] = []"
| "joinSpace [x] = x"
| "joinSpace (x # y # ys) = x @ '' '' @ joinSpace (y # ys)"

definition fmtMap :: "(string \<times> string) list \<Rightarrow> string" where
  "fmtMap m = ''map['' @ joinSpace (map (\<lambda>(k, v). k @ '':'' @ v) (sort_key fst m)) @ '']''"

definition serializeStruct_Message :: "Message \<Rightarrow> Metadata" where
  "serializeStruct_Message message =
     (let res = [];
          res = Add res ''comment_id'' (FormatInt (msg_CommentID message));
          res = Add res ''review_id'' (FormatInt (msg_ReviewID message));
          res = Add res ''body'' (Body message);
          res = Add res ''created_at'' (timeString (msg_CreatedAt message));
          res = Add res ''updated_at'' (timeString (UpdatedAt message));
          res = Add res ''author_association'' (AuthorAssociation message);
          res = Add res ''html_url'' (HTMLURL message);
          res = Add res ''user_login'' (UserLogin message);
          res = Add res ''user_id'' (FormatInt (UserID message));
          res = Add res ''user_avatar_url'' (UserAvatarURL message);
          res = Add res ''user_html_url'' (UserHTMLURL message);
          res = Add res ''match'' (fmtMap (Matches message))
      in res)"

subsection \<open>Captures\<close>

text \<open>
  \<open>getParams\<close>: the loop over \<open>SubexpNames()\<close> with its index.  \<open>match[i]\<close> panics
  when \<open>i\<close> is the length of \<open>match\<close>, which the test \<open>i <= len(match)\<close> lets through.
\<close>

fun paramsLoop :: "nat \<Rightarrow> string list \<Rightarrow> string list \<Rightarrow> (string \<times> string) list \<Rightarrow> error + (string \<times> string) list" where
  "paramsLoop i [] match paramsMap = Inr paramsMap"
| "paramsLoop i (name # names) match paramsMap =
     (if i > 0 \<and> i \<le> length match then
        (if i < length match
         then paramsLoop (i + 1) names match (AList.update name (match ! i) paramsMap)
         else Inl (Panic ''runtime error: index out of range''))
      else paramsLoop (i + 1) names match paramsMap)"

definition getParams :: "regexp \<Rightarrow> string \<Rightarrow> string \<Rightarrow> error + (string \<times> string) list" where
  "getParams re regEx body =
     (case MustCompile re regEx of
        None \<Rightarrow> Inl (Panic (''regexp: Compile('' @ regEx @ '')''))
      | Some compRegEx \<Rightarrow>
          (let match = FindStringSubmatch compRegEx body
           in paramsLoop 0 (SubexpNames compRegEx) match []))"

text \<open>The two nested loops that fill \<open>message.Matches\<close> in parseReview and parseComment.\<close>

fun assignLoop :: "(string \<times> string) list \<Rightarrow> (string \<times> string) list \<Rightarrow> (string \<times> string) list" where
  "assignLoop [] matches = matches"
| "assignLoop ((k, v) # kvs) matches = assignLoop kvs (AList.update k v matches)"

fun matchesLoop :: "regexp \<Rightarrow> string list \<Rightarrow> string \<Rightarrow> (string \<times> string) list \<Rightarrow> error + (string \<times> string) list" where
  "matchesLoop re [] body matches = Inr matches"
| "matchesLoop re (r # regex) body matches =
     (case getParams re r body of
        Inl err \<Rightarrow> Inl err
      | Inr params \<Rightarrow> matchesLoop re regex body (assignLoop params matches))"

definition parseReview :: "regexp \<Rightarrow> GithubClient \<Rightarrow> int \<Rightarrow> int \<Rightarrow> string list \<Rightarrow> error + Message" where
  "parseReview re gh prID reviewID regex =
     (case GetPullRequestReview gh prID reviewID of
        Inl err \<Rightarrow> Inl (Error (''could not retrieve review: '' @ err))
      | Inr review \<Rightarrow>
          (let message =
                 \<lparr>msg_CommentID = 0,
                  msg_ReviewID = Review_ID review,
                  Body = Review_Body review,
                  msg_CreatedAt = Review_SubmittedAt review,
                  UpdatedAt = zeroTime,
                  AuthorAssociation = Review_AuthorAssociation review,
                  HTMLURL = Review_HTMLURL review,
                  UserLogin = User_Login (Review_User review),
                  UserID = User_ID (Review_User review),
                  UserAvatarURL = User_AvatarURL (Review_User review),
                  UserHTMLURL = User_HTMLURL (Review_User review),
                  Matches = []\<rparr>
           in case matchesLoop re regex (Review_Body review) [] of
                Inl err \<Rightarrow> Inl err
              | Inr matches \<Rightarrow> Inr (message\<lparr>Matches := matches\<rparr>)))"

definition parseComment :: "regexp \<Rightarrow> GithubClient \<Rightarrow> int \<Rightarrow> string list \<Rightarrow> error + Message" where
  "parseComment re gh commentID regex =
     (case GetPullRequestComment gh commentID of
        Inl err \<Rightarrow> Inl (Error (''could not retrieve review: '' @ err))
      | Inr comment \<Rightarrow>
          (let message =
                 \<lparr>msg_CommentID = Comment_ID comment,
                  msg_ReviewID = 0,
                  Body = Comment_Body comment,
                  msg_CreatedAt = Comment_CreatedAt comment,
                  UpdatedAt = Comment_UpdatedAt comment,
                  AuthorAssociation = Comment_AuthorAssociation comment,
                  HTMLURL = Comment_HTMLURL comment,
                  UserLogin = User_Login (Comment_User comment),
                  UserID = User_ID (Comment_User comment),
                  UserAvatarURL = User_AvatarURL (Comment_User comment),
                  UserHTMLURL = User_HTMLURL (Comment_User comment),
                  Matches = []\<rparr>
           in case matchesLoop re regex (Comment_Body comment) [] of
                Inl err \<Rightarrow> Inl err
              | Inr matches \<Rightarrow> Inr (message\<lparr>Matches := matches\<rparr>)))"

subsection \<open>Files and the working copy\<close>

text \<open>
  Every call that touches the file system or the working copy is an \<open>effect\<close>.  The
  run keeps the list of the calls it has made; the world is a parameter that says, from
  the calls made so far, whether the next one fails and with which message.
  \<open>filepath.Join\<close> is a parameter too.  The git calls carry the arguments the code
  passes to the client of package api.
\<close>

datatype effect =
    MkdirAll string
  | WriteFile string string
  | Create string
  | Truncate string
  | WriteString string string
  | NewGitClient string bool bool string
  | Init string
  | Pull string string int bool bool
  | Fetch string int int bool
  | Rebase string string bool
  | Merge string bool
  | Checkout string string bool

record world =
  Join :: "string list \<Rightarrow> string"
  perform :: "effect list \<Rightarrow> effect \<Rightarrow> string option"

definition call :: "world \<Rightarrow> effect list \<Rightarrow> effect \<Rightarrow> effect list \<times> string option" where
  "call w tr e = (tr @ [e], perform w tr e)"

fun wrap :: "string \<Rightarrow> error \<Rightarrow> error" where
  "wrap prefix (Error msg) = Error (prefix @ msg)"
| "wrap prefix (Panic msg) = Panic msg"

definition writeTextToFile :: "world \<Rightarrow> effect list \<Rightarrow> string \<Rightarrow> string \<Rightarrow> effect list \<times> error option" where
  "writeTextToFile w tr file text =
     (case call w tr (Create file) of
        (tr, Some err) \<Rightarrow> (tr, Some (Error (''could not create comment file: '' @ err)))
      | (tr, None) \<Rightarrow>
          (case call w tr (Truncate file) of
             (tr, Some err) \<Rightarrow> (tr, Some (Error err))
           | (tr, None) \<Rightarrow>
               (case call w tr (WriteString file text) of
                  (tr, Some err) \<Rightarrow> (tr, Some (Error err))
                | (tr, None) \<Rightarrow> (tr, None))))"

fun fieldsLoop :: "world \<Rightarrow> effect list \<Rightarrow> string \<Rightarrow> Metadata \<Rightarrow> effect list \<times> error option" where
  "fieldsLoop w tr dir [] = (tr, None)"
| "fieldsLoop w tr dir (field # serialized) =
     (if Name field = ''match'' then fieldsLoop w tr dir serialized
      else
        (let path = Join w [dir, Name field]
         in case writeTextToFile w tr path (Value field) of
              (tr, Some err) \<Rightarrow> (tr, Some (wrap (''could not write: '' @ path @ '': '') err))
            | (tr, None) \<Rightarrow> fieldsLoop w tr dir serialized))"

fun capturesLoop :: "world \<Rightarrow> effect list \<Rightarrow> string \<Rightarrow> (string \<times> string) list \<Rightarrow> effect list \<times> error option" where
  "capturesLoop w tr dir [] = (tr, None)"
| "capturesLoop w tr dir ((k, v) # matches) =
     (let path = Join w [dir, k]
      in case writeTextToFile w tr path v of
           (tr, Some err) \<Rightarrow> (tr, Some (wrap (''could not write: '' @ path @ '': '') err))
         | (tr, None) \<Rightarrow> capturesLoop w tr dir matches)"

fun writeMapLoop :: "world \<Rightarrow> effect list \<Rightarrow> string \<Rightarrow> int \<Rightarrow> Message list \<Rightarrow> effect list \<times> error option" where
  "writeMapLoop w tr parent i [] = (tr, None)"
| "writeMapLoop w tr parent i (message # messages) =
     (let dir = Join w [parent, FormatInt (i + 1)]
      in case call w tr (MkdirAll dir) of
           (tr, Some err) \<Rightarrow> (tr, Some (Error (''failed to create source directory: '' @ err)))
         | (tr, None) \<Rightarrow>
             (case fieldsLoop w tr dir (serializeStruct_Message message) of
                (tr, Some err) \<Rightarrow> (tr, Some err)
              | (tr, None) \<Rightarrow>
                  (case capturesLoop w tr dir (Matches message) of
                     (tr, Some err) \<Rightarrow> (tr, Some err)
                   | (tr, None) \<Rightarrow> writeMapLoop w tr parent (i + 1) messages)))"

definition writeMap :: "world \<Rightarrow> effect list \<Rightarrow> Message list \<Rightarrow> string \<Rightarrow> effect list \<times> error option" where
  "writeMap w tr messages parent = writeMapLoop w tr parent 0 messages"

subsection \<open>The steps of \<open>In\<close>\<close>

text \<open>
  The loop over the decoded responses, once for the approvals and once for the
  reviews; the two differ in the patterns, in the word of the last error message and in
  the counter of the metadata they add to.  \<open>saveMessage\<close> returns nil.
\<close>

definition saveMessage :: "string \<Rightarrow> int \<Rightarrow> Message \<Rightarrow> error option" where
  "saveMessage path i message = None"

fun messagesLoop :: "regexp \<Rightarrow> GithubClient \<Rightarrow> string \<Rightarrow> int \<Rightarrow> string list \<Rightarrow> string \<Rightarrow> int \<Rightarrow> Response list \<Rightarrow> Message list \<times> int \<Rightarrow> error + Message list \<times> int" where
  "messagesLoop re gh path prID regex kind i [] (messages, counter) = Inr (messages, counter)"
| "messagesLoop re gh path prID regex kind i (response # responses) (messages, counter) =
     (let reviewID = ParseInt (ReviewID response);
          commentID = ParseInt (CommentID response)
      in case (if reviewID > 0 then parseReview re gh prID reviewID regex
               else if commentID > 0 then parseComment re gh commentID regex
               else Inl (Error (''invalid '' @ kind @ '': no comment or review id''))) of
           Inl err \<Rightarrow> Inl (wrap ''could not parse: '' err)
         | Inr message \<Rightarrow>
             (case saveMessage path i message of
                Some err \<Rightarrow> Inl (wrap ''could not save message: '' err)
              | None \<Rightarrow>
                  messagesLoop re gh path prID regex kind (i + 1) responses
                    (messages @ [message], counter + 1)))"

text \<open>The two loops that add the captures of every message to the serialized metadata.\<close>

fun matchFields :: "Metadata \<Rightarrow> int \<Rightarrow> (string \<times> string) list \<Rightarrow> Metadata" where
  "matchFields serializedMetadata i [] = serializedMetadata"
| "matchFields serializedMetadata i ((k, v) # matches) =
     matchFields (Add serializedMetadata (k @ ''_'' @ FormatInt (i + 1)) v) i matches"

fun metadataLoop :: "Metadata \<Rightarrow> int \<Rightarrow> Message list \<Rightarrow> Metadata" where
  "metadataLoop serializedMetadata i [] = serializedMetadata"
| "metadataLoop serializedMetadata i (message # messages) =
     metadataLoop (matchFields serializedMetadata i (Matches message)) (i + 1) messages"

fun filesLoop :: "world \<Rightarrow> effect list \<Rightarrow> string \<Rightarrow> Metadata \<Rightarrow> effect list \<times> error option" where
  "filesLoop w tr path [] = (tr, None)"
| "filesLoop w tr path (d # serializedMetadata) =
     (let filename = Name d; content = Value d
      in case call w tr (WriteFile (Join w [path, filename]) content) of
           (tr, Some err) \<Rightarrow>
             (tr, Some (Error (''failed to write metadata file '' @ filename @ '': '' @ err)))
         | (tr, None) \<Rightarrow> filesLoop w tr path serializedMetadata)"

definition writeOutput :: "world \<Rightarrow> effect list \<Rightarrow> string \<Rightarrow> InRequest \<Rightarrow> Metadata \<Rightarrow> Message list \<Rightarrow> Message list \<Rightarrow> effect list \<times> error option" where
  "writeOutput w tr path req serializedMetadata approvedMessages reviewedMessages =
     (case call w tr (WriteFile (Join w [path, ''version.json'']) (Marshal_Version (in_Version req))) of
        (tr, Some err) \<Rightarrow> (tr, Some (Error (''failed to write version: '' @ err)))
      | (tr, None) \<Rightarrow>
          (case call w tr (WriteFile (Join w [path, ''metadata.json'']) (Marshal_Metadata serializedMetadata)) of
             (tr, Some err) \<Rightarrow> (tr, Some (Error (''failed to write metadata: '' @ err)))
           | (tr, None) \<Rightarrow>
               (case filesLoop w tr path serializedMetadata of
                  (tr, Some err) \<Rightarrow> (tr, Some err)
                | (tr, None) \<Rightarrow>
                    (if MapMetadata (in_Params req) then
                       (case writeMap w tr approvedMessages (Join w [path, ''approval'']) of
                          (tr, Some err) \<Rightarrow> (tr, Some (wrap ''cannot write map: '' err))
                        | (tr, None) \<Rightarrow>
                            (case writeMap w tr reviewedMessages (Join w [path, ''review'']) of
                               (tr, Some err) \<Rightarrow> (tr, Some (wrap ''cannot write map: '' err))
                             | (tr, None) \<Rightarrow> (tr, None)))
                     else (tr, None)))))"

text \<open>
  The last step: the working copy.  The strategy is looked at in the \<open>switch\<close> that
  follows \<open>Init\<close>, \<open>Pull\<close> and \<open>Fetch\<close>.
\<close>

definition download :: "world \<Rightarrow> effect list \<Rightarrow> string \<Rightarrow> InRequest \<Rightarrow> PullRequest \<Rightarrow> effect list \<times> error option" where
  "download w tr path req pull =
     (if \<not> SkipDownload (in_Params req) then
        (let sourcePath = ''source'';
             sourcePath = (if SourcePath (in_Params req) \<noteq> [] then SourcePath (in_Params req) else sourcePath);
             sourcePath = Join w [path, sourcePath]
         in case call w tr (MkdirAll sourcePath) of
              (tr, Some err) \<Rightarrow> (tr, Some (Error (''failed to create source directory: '' @ err)))
            | (tr, None) \<Rightarrow>
          (case call w tr (NewGitClient (AccessToken (in_Source req)) (SkipSSLVerification (in_Source req))
                             (DisableGitLfs (in_Source req)) sourcePath) of
              (tr, Some err) \<Rightarrow> (tr, Some (Error (''failed to initialize git client: '' @ err)))
            | (tr, None) \<Rightarrow>
          (case call w tr (Init (Branch_Ref (Pull_Base pull))) of
              (tr, Some err) \<Rightarrow> (tr, Some (Error (''failed to initialize git repo: '' @ err)))
            | (tr, None) \<Rightarrow>
          (case call w tr (Pull (Branch_GitURL (Pull_Base pull)) (Branch_Ref (Pull_Base pull))
                             (GitDepth (in_Params req)) (Submodules (in_Params req)) (FetchTags (in_Params req))) of
              (tr, Some err) \<Rightarrow> (tr, Some (Error err))
            | (tr, None) \<Rightarrow>
          (case call w tr (Fetch (Branch_GitURL (Pull_Base pull)) (Pull_Number pull)
                             (GitDepth (in_Params req)) (Submodules (in_Params req))) of
              (tr, Some err) \<Rightarrow> (tr, Some (Error err))
            | (tr, None) \<Rightarrow>
          (let tool = IntegrationTool (in_Params req)
           in if tool = ''rebase'' \<or> tool = [] then
                (case call w tr (Rebase (Branch_Ref (Pull_Base pull)) (Branch_SHA (Pull_Head pull))
                                   (Submodules (in_Params req))) of
                   (tr, Some err) \<Rightarrow> (tr, Some (Error err))
                 | (tr, None) \<Rightarrow> (tr, None))
              else if tool = ''merge'' then
                (case call w tr (Merge (Branch_SHA (Pull_Head pull)) (Submodules (in_Params req))) of
                   (tr, Some err) \<Rightarrow> (tr, Some (Error err))
                 | (tr, None) \<Rightarrow> (tr, None))
              else if tool = ''checkout'' then
                (case call w tr (Checkout (Branch_Ref (Pull_Head pull)) (Branch_SHA (Pull_Head pull))
                                   (Submodules (in_Params req))) of
                   (tr, Some err) \<Rightarrow> (tr, Some (Error err))
                 | (tr, None) \<Rightarrow> (tr, None))
              else (tr, Some (Error (''invalid integration tool specified: '' @ tool)))))))))
      else (tr, None))"

text \<open>
  \<open>In\<close> itself.  The result is the list of the calls made and either the error or
  the response.  The decoded lists are stored in the unexported fields of the version,
  which the response carries and \<open>version.json\<close> does not.
\<close>

definition In :: "regexp \<Rightarrow> api \<Rightarrow> world \<Rightarrow> string \<Rightarrow> InRequest \<Rightarrow> effect list \<times> (error + InResponse)" where
  "In re api w outputDir req =
     (case NewGithubClient api (in_Source req) of
        Inl err \<Rightarrow> ([], Inl (Error err))
      | Inr gh \<Rightarrow>
     (let prID = ParseInt (PrID (in_Version req))
      in case GetPullRequest gh prID of
        Inl err \<Rightarrow> ([], Inl (Error err))
      | Inr pull \<Rightarrow>
     (let metadata =
            \<lparr>PRID = prID,
             PRHeadRef = Branch_Ref (Pull_Head pull),
             PRHeadSHA = Branch_SHA (Pull_Head pull),
             PRBaseRef = Branch_Ref (Pull_Base pull),
             PRBaseSHA = Branch_SHA (Pull_Base pull),
             TotalApprovals = 0,
             TotalReviews = 0\<rparr>;
          path = Join w [outputDir]
      in case call w [] (MkdirAll path) of
        (tr, Some err) \<Rightarrow> (tr, Inl (Error (''failed to create output directory: '' @ err)))
      | (tr, None) \<Rightarrow>
     (case Unmarshal_Responses (ApprovedBy (in_Version req)) of
        Inl err \<Rightarrow> (tr, Inl (Error (''could not unmarshal JSON: '' @ err)))
      | Inr approvals \<Rightarrow>
     (let req = req\<lparr>in_Version := (in_Version req)\<lparr>approvedBy := approvals\<rparr>\<rparr>
      in case messagesLoop re gh path prID (ApproverComments (in_Source req)) ''approval'' 0
                approvals ([], TotalApprovals metadata) of
        Inl err \<Rightarrow> (tr, Inl err)
      | Inr (approvedMessages, counter) \<Rightarrow>
     (let metadata = metadata\<lparr>TotalApprovals := counter\<rparr>
      in case Unmarshal_Responses (ReviewedBy (in_Version req)) of
        Inl err \<Rightarrow> (tr, Inl (Error (''could not unmarshal JSON: '' @ err)))
      | Inr reviews \<Rightarrow>
     (let req = req\<lparr>in_Version := (in_Version req)\<lparr>reviewedBy := reviews\<rparr>\<rparr>
      in case messagesLoop re gh path prID (ReviewerComments (in_Source req)) ''review'' 0
                reviews ([], TotalReviews metadata) of
        Inl err \<Rightarrow> (tr, Inl err)
      | Inr (reviewedMessages, counter) \<Rightarrow>
     (let metadata = metadata\<lparr>TotalReviews := counter\<rparr>;
          serializedMetadata = serializeStruct_InMetadata metadata;
          serializedMetadata = metadataLoop serializedMetadata 0 approvedMessages;
          serializedMetadata = metadataLoop serializedMetadata 0 reviewedMessages
      in case writeOutput w tr path req serializedMetadata approvedMessages reviewedMessages of
        (tr, Some err) \<Rightarrow> (tr, Inl err)
      | (tr, None) \<Rightarrow>
     (case download w tr path req pull of
        (tr, Some err) \<Rightarrow> (tr, Inl err)
      | (tr, None) \<Rightarrow>
          (tr, Inr \<lparr>out_Version = in_Version req, out_Metadata = serializedMetadata\<rparr>))))))))))"

section \<open>A concrete run\<close>

text \<open>
  The first scenario of the specification: pull request 5 is open and carries one
  comment, \<open>Approved-by: alice\<close>, of a user under no team constraint; the
  configuration has one approver pattern and a minimum of one approval.  The reviewer
  patterns are left empty, so the comment counts as a review as well.
\<close>

definition exSource :: Source where
  "exSource =
     \<lparr>SkipSSLVerification = False, GithubEndpoint = [], Repository = ''nderjung/limp'',
      DisableGitLfs = False, AccessToken = ''token'', Username = [], Password = [],
      OnlyMergeable = False, States = [], Labels = [],
      MinApprovals = 1, ApproverComments = [''Approved-by: (?P<approved_by>.*)''],
      ApproverTeams = [], MinReviews = 0, ReviewerComments = [], ReviewerTeams = [],
      ReviewStates = [], IgnoreStates = [], IgnoreLabels = []\<rparr>"

definition exUser :: User where
  "exUser = \<lparr>User_Login = ''alice'', User_ID = 7, User_AvatarURL = [], User_HTMLURL = []\<rparr>"

definition exTime :: Time where
  "exTime = \<lparr>Unix = 1600000000, timeString = ''2020-09-13 12:26:40 +0000 UTC''\<rparr>"

definition exComment :: Comment where
  "exComment =
     \<lparr>Comment_ID = 101, Comment_Body = ''Approved-by: alice'', Comment_User = exUser,
      Comment_CreatedAt = exTime, Comment_UpdatedAt = exTime,
      Comment_AuthorAssociation = ''MEMBER'', Comment_HTMLURL = []\<rparr>"

definition exReview :: Review where
  "exReview =
     \<lparr>Review_ID = 202, Review_Body = ''Approved-by: alice'', Review_User = exUser,
      Review_State = ''CHANGES_REQUESTED'', Review_SubmittedAt = exTime,
      Review_AuthorAssociation = ''MEMBER'', Review_HTMLURL = []\<rparr>"

definition exPull :: PullRequest where
  "exPull =
     \<lparr>Pull_Number = 5, Pull_State = ''open'', Pull_Labels = [], Pull_Mergeable = True,
      Pull_Draft = False,
      Pull_Head = \<lparr>Branch_Ref = ''feature'', Branch_SHA = ''abc'', Branch_GitURL = ''git://head''\<rparr>,
      Pull_Base = \<lparr>Branch_Ref = ''main'', Branch_SHA = ''def'', Branch_GitURL = ''git://base''\<rparr>\<rparr>"

definition exClient :: GithubClient where
  "exClient =
     \<lparr>ListPullRequests = Inr [exPull],
      ListTeamMembers = (\<lambda>team. Inr []),
      ListPullRequestComments = (\<lambda>n. if n = 5 then Inr [exComment] else Inl ''Not Found''),
      ListPullRequestReviews = (\<lambda>n. if n = 5 then Inr [] else Inl ''Not Found''),
      UserMemberOfTeam = (\<lambda>login team. False),
      GetPullRequest = (\<lambda>n. if n = 5 then Inr exPull else Inl ''Not Found''),
      GetPullRequestReview = (\<lambda>n i. Inl ''Not Found''),
      GetPullRequestComment = (\<lambda>i. if i = 101 then Inr exComment else Inl ''Not Found'')\<rparr>"

definition exApi :: api where
  "exApi = (\<lambda>repository token skip endpoint. Inr exClient)"

text \<open>
  The answers of package \<open>regexp\<close> on the three patterns of the examples, for a
  body that starts with the literal part \<open>Approved-by: \<close> or does not hold it.  The
  first and the second pattern capture the rest of the body, the second one in an
  unnamed group; the third captures one lower-case letter.
\<close>

definition exFind :: "string \<Rightarrow> string \<Rightarrow> string list" where
  "exFind lit body = (if take (length lit) body = lit then [body, drop (length lit) body] else [])"

definition exFindLetter :: "string \<Rightarrow> string \<Rightarrow> string list" where
  "exFindLetter lit body =
     (if take (length lit) body = lit \<and> length lit < length body \<and>
         97 \<le> (of_char (body ! length lit) :: nat) \<and> (of_char (body ! length lit) :: nat) \<le> 122
      then [take (Suc (length lit)) body, [body ! length lit]] else [])"

definition exRegexp :: regexp where
  "exRegexp =
     \<lparr>Match = (\<lambda>pattern body.
         ((pattern = ''Approved-by: (?P<approved_by>.*)'' \<or> pattern = ''Approved-by: (.*)'') \<and>
          exFind ''Approved-by: '' body \<noteq> []) \<or>
         (pattern = ''Approved-by: (?P<approved_by>[a-z])'' \<and>
          exFindLetter ''Approved-by: '' body \<noteq> [])),
      MustCompile = (\<lambda>pattern.
         if pattern = ''Approved-by: (?P<approved_by>.*)''
         then Some \<lparr>SubexpNames = [[], ''approved_by''], FindStringSubmatch = exFind ''Approved-by: ''\<rparr>
         else if pattern = ''Approved-by: (.*)''
         then Some \<lparr>SubexpNames = [[], []], FindStringSubmatch = exFind ''Approved-by: ''\<rparr>
         else if pattern = ''Approved-by: (?P<approved_by>[a-z])''
         then Some \<lparr>SubexpNames = [[], ''approved_by''], FindStringSubmatch = exFindLetter ''Approved-by: ''\<rparr>
         else None)\<rparr>"

fun joinSlash :: "string list \<Rightarrow> string" where
  "joinSlash [] = []"
| "joinSlash [x] = x"
| "joinSlash (x # y # ys) = x @ ''/'' @ joinSlash (y # ys)"

text \<open>
  \<open>filepath.Join\<close> on the paths of the examples: the elements that are not empty,
  with a slash between them.  In the first world no call fails; in the second one
  \<open>os.Create\<close> fails on a path that the run has made a directory.
\<close>

definition exJoin :: "string list \<Rightarrow> string" where
  "exJoin elems = joinSlash (filter (\<lambda>elem. elem \<noteq> []) elems)"

definition exWorld :: world where
  "exWorld = \<lparr>Join = exJoin, perform = (\<lambda>tr e. None)\<rparr>"

definition exFiles :: world where
  "exFiles =
     \<lparr>Join = exJoin,
      perform = (\<lambda>tr e.
        case e of
          Create file \<Rightarrow>
            if MkdirAll file \<in> set tr then Some (''open '' @ file @ '': is a directory'') else None
        | _ \<Rightarrow> None)\<rparr>"

definition exResponse :: Response where
  "exResponse = \<lparr>ReviewID = [], CommentID = ''101'', CreatedAt = ''1600000000''\<rparr>"

definition exScanned :: Version where
  "exScanned =
     \<lparr>PrID = ''5'', ApprovedBy = [], approvedBy = [exResponse],
      ReviewedBy = [], reviewedBy = [exResponse], lastUpdated = 1600000000\<rparr>"

definition exCheckRequest :: CheckRequest where
  "exCheckRequest =
     \<lparr>check_Source = exSource,
      check_Version = \<lparr>PrID = [], ApprovedBy = [], approvedBy = [], ReviewedBy = [],
                       reviewedBy = [], lastUpdated = 0\<rparr>\<rparr>"

text \<open>
  The request of the resolver for the version of this run, as it arrives from standard
  input (the unexported fields empty), with the default strategy; the same request
  with a strategy that does not exist; and the same with the approver pattern whose
  group has no name.  \<open>exMessage\<close> is the message that the resolver builds from the
  comment, up to its captures.
\<close>

definition exVersion :: Version where
  "exVersion = (encodeVersion exScanned)\<lparr>approvedBy := [], reviewedBy := [], lastUpdated := 0\<rparr>"

definition exParams :: InParams where
  "exParams =
     \<lparr>SourcePath = [], GitDepth = 1, Submodules = False, SkipDownload = False,
      FetchTags = False, IntegrationTool = [], MapMetadata = False\<rparr>"

definition exInRequest :: InRequest where
  "exInRequest = \<lparr>in_Source = exSource, in_Version = exVersion, in_Params = exParams\<rparr>"

definition squashRequest :: InRequest where
  "squashRequest = exInRequest\<lparr>in_Params := exParams\<lparr>IntegrationTool := ''squash''\<rparr>\<rparr>"

definition unnamedRequest :: InRequest where
  "unnamedRequest = exInRequest\<lparr>in_Source := exSource\<lparr>ApproverComments := [''Approved-by: (.*)'']\<rparr>\<rparr>"

definition unnamedMapRequest :: InRequest where
  "unnamedMapRequest = unnamedRequest\<lparr>in_Params := exParams\<lparr>MapMetadata := True\<rparr>\<rparr>"

definition exMessage :: "(string \<times> string) list \<Rightarrow> Message" where
  "exMessage matches =
     \<lparr>msg_CommentID = 101, msg_ReviewID = 0, Body = ''Approved-by: alice'',
      msg_CreatedAt = exTime, UpdatedAt = exTime, AuthorAssociation = ''MEMBER'',
      HTMLURL = [], UserLogin = ''alice'', UserID = 7, UserAvatarURL = [], UserHTMLURL = [],
      Matches = matches\<rparr>"

text \<open>
  A second run, for the order of the versions and for the reviews.  The platform lists
  pull request 5, as above, and then pull request 6, which carries no comment and one
  review, older than the comment of pull request 5, with the body \<open>Approved-by: alice\<close>
  and the state \<open>CHANGES_REQUESTED\<close>; the configuration counts reviews of that state.
  \<open>exReviewMessage\<close> is the message that the resolver builds from the review, up to its
  captures.  In the world \<open>exPullFails\<close> the call of \<open>Pull\<close> fails; the last request
  has the strategy that does not exist and skips the download.
\<close>

definition exEarly :: Time where
  "exEarly = \<lparr>Unix = 1500000000, timeString = ''2017-07-14 02:40:00 +0000 UTC''\<rparr>"

definition exReviewSix :: Review where
  "exReviewSix =
     \<lparr>Review_ID = 202, Review_Body = ''Approved-by: alice'', Review_User = exUser,
      Review_State = ''CHANGES_REQUESTED'', Review_SubmittedAt = exEarly,
      Review_AuthorAssociation = ''MEMBER'', Review_HTMLURL = []\<rparr>"

definition exPullSix :: PullRequest where
  "exPullSix = exPull\<lparr>Pull_Number := 6\<rparr>"

definition exSourceTwo :: Source where
  "exSourceTwo = exSource\<lparr>ReviewStates := [''changes_requested'']\<rparr>"

definition exClientTwo :: GithubClient where
  "exClientTwo =
     \<lparr>ListPullRequests = Inr [exPull, exPullSix],
      ListTeamMembers = (\<lambda>team. Inr []),
      ListPullRequestComments =
        (\<lambda>n. if n = 5 then Inr [exComment] else if n = 6 then Inr [] else Inl ''Not Found''),
      ListPullRequestReviews =
        (\<lambda>n. if n = 5 then Inr [] else if n = 6 then Inr [exReviewSix] else Inl ''Not Found''),
      UserMemberOfTeam = (\<lambda>login team. False),
      GetPullRequest =
        (\<lambda>n. if n = 5 then Inr exPull else if n = 6 then Inr exPullSix else Inl ''Not Found''),
      GetPullRequestReview = (\<lambda>n i. if n = 6 \<and> i = 202 then Inr exReviewSix else Inl ''Not Found''),
      GetPullRequestComment = (\<lambda>i. if i = 101 then Inr exComment else Inl ''Not Found'')\<rparr>"

definition exApiTwo :: api where
  "exApiTwo = (\<lambda>repository token skip endpoint. Inr exClientTwo)"

definition exCheckRequestTwo :: CheckRequest where
  "exCheckRequestTwo = exCheckRequest\<lparr>check_Source := exSourceTwo\<rparr>"

definition exResponseSix :: Response where
  "exResponseSix = \<lparr>ReviewID = ''202'', CommentID = [], CreatedAt = ''1500000000''\<rparr>"

definition exScannedSix :: Version where
  "exScannedSix =
     \<lparr>PrID = ''6'', ApprovedBy = [], approvedBy = [exResponseSix],
      ReviewedBy = [], reviewedBy = [exResponseSix], lastUpdated = 1500000000\<rparr>"

definition exVersionSix :: Version where
  "exVersionSix = (encodeVersion exScannedSix)\<lparr>approvedBy := [], reviewedBy := [], lastUpdated := 0\<rparr>"

definition exInRequestSix :: InRequest where
  "exInRequestSix = \<lparr>in_Source = exSourceTwo, in_Version = exVersionSix, in_Params = exParams\<rparr>"

definition exReviewMessage :: "(string \<times> string) list \<Rightarrow> Message" where
  "exReviewMessage matches =
     \<lparr>msg_CommentID = 0, msg_ReviewID = 202, Body = ''Approved-by: alice'',
      msg_CreatedAt = exEarly, UpdatedAt = zeroTime, AuthorAssociation = ''MEMBER'',
      HTMLURL = [], UserLogin = ''alice'', UserID = 7, UserAvatarURL = [], UserHTMLURL = [],
      Matches = matches\<rparr>"

definition exPullFails :: world where
  "exPullFails =
     \<lparr>Join = exJoin,
      perform = (\<lambda>tr e. case e of Pull u r d s t \<Rightarrow> Some ''network is unreachable'' | _ \<Rightarrow> None)\<rparr>"

definition skipSquashRequest :: InRequest where
  "skipSquashRequest = squashRequest\<lparr>in_Params := (in_Params squashRequest)\<lparr>SkipDownload := True\<rparr>\<rparr>"

section \<open>Notions used by the statements\<close>

text \<open>
  Text in ASCII; the tokens of a list of responses as \<open>Marshal\<close> writes it; the
  number a decimal text stands for, which gives the time stamp of a response; what the
  loops of the scanner keep true of the version they build; the metadata field of a
  capture; and the calls that change the working copy.
\<close>

definition ascii :: "string \<Rightarrow> bool" where
  "ascii s = list_all (\<lambda>c. (of_char c :: nat) < 128) s"

definition asciiResponse :: "Response \<Rightarrow> bool" where
  "asciiResponse r = (ascii (ReviewID r) \<and> ascii (CommentID r) \<and> ascii (CreatedAt r))"

definition responseTokens :: "Response \<Rightarrow> token list" where
  "responseTokens r =
     [LBrace, Str ''review_id'', Colon, Str (ReviewID r), Comma,
      Str ''comment_id'', Colon, Str (CommentID r), Comma,
      Str ''created_at'', Colon, Str (CreatedAt r), RBrace]"

fun listTokens :: "Response list \<Rightarrow> token list" where
  "listTokens [] = []"
| "listTokens [r] = responseTokens r"
| "listTokens (r # r' # rs) = responseTokens r @ [Comma] @ listTokens (r' # rs)"

definition decimalValue :: "string \<Rightarrow> int" where
  "decimalValue s =
     (if s \<noteq> [] \<and> hd s = CHR ''-'' then - digitsValue (tl s) else digitsValue s)"

definition stamp :: "Response \<Rightarrow> int" where
  "stamp r = decimalValue (CreatedAt r)"

definition stamps :: "Version \<Rightarrow> int set" where
  "stamps v = stamp ` (set (approvedBy v) \<union> set (reviewedBy v))"

definition scanInv :: "Version \<Rightarrow> bool" where
  "scanInv v \<longleftrightarrow>
     list_all asciiResponse (approvedBy v) \<and> list_all asciiResponse (reviewedBy v) \<and>
     lastUpdated v = Max (insert 0 (stamps v))"

definition captureField :: "int \<Rightarrow> string \<Rightarrow> string \<Rightarrow> MetadataField" where
  "captureField i k v = \<lparr>Name = k @ ''_'' @ FormatInt i, Value = v\<rparr>"

definition isMutation :: "effect \<Rightarrow> bool" where
  "isMutation e =
     (case e of
        Init b \<Rightarrow> True
      | Pull u r d s t \<Rightarrow> True
      | Fetch u n d s \<Rightarrow> True
      | Rebase b h s \<Rightarrow> True
      | Merge h s \<Rightarrow> True
      | Checkout r h s \<Rightarrow> True
      | _ \<Rightarrow> False)"

definition mutations :: "effect list \<Rightarrow> effect list" where
  "mutations tr = filter isMutation tr"

text \<open>
  The five calls that the download block makes before it looks at the strategy, and the
  error that \<open>In\<close> returns when the call at a position of that list fails with a
  message; the pull requests that qualify in a scan, and the version of each.
\<close>

definition gitCalls :: "world \<Rightarrow> string \<Rightarrow> InRequest \<Rightarrow> PullRequest \<Rightarrow> effect list" where
  "gitCalls w path req pull =
     (let sourcePath = Join w [path, if SourcePath (in_Params req) \<noteq> [] then SourcePath (in_Params req) else ''source'']
      in [MkdirAll sourcePath,
          NewGitClient (AccessToken (in_Source req)) (SkipSSLVerification (in_Source req))
            (DisableGitLfs (in_Source req)) sourcePath,
          Init (Branch_Ref (Pull_Base pull)),
          Pull (Branch_GitURL (Pull_Base pull)) (Branch_Ref (Pull_Base pull))
            (GitDepth (in_Params req)) (Submodules (in_Params req)) (FetchTags (in_Params req)),
          Fetch (Branch_GitURL (Pull_Base pull)) (Pull_Number pull)
            (GitDepth (in_Params req)) (Submodules (in_Params req))])"

definition callError :: "nat \<Rightarrow> string \<Rightarrow> error" where
  "callError k err =
     (if k = 0 then Error (''failed to create source directory: '' @ err)
      else if k = 1 then Error (''failed to initialize git client: '' @ err)
      else if k = 2 then Error (''failed to initialize git repo: '' @ err)
      else Error err)"

definition qualifying :: "regexp \<Rightarrow> GithubClient \<Rightarrow> Source \<Rightarrow> PullRequest \<Rightarrow> bool" where
  "qualifying re client source pull =
     (\<not> skipped source pull \<and>
      (case scanPull re client source pull of
         Inl err \<Rightarrow> False
       | Inr version \<Rightarrow>
           hasMinApprovers source (int (length (approvedBy version))) \<and>
           hasMinReviewers source (int (length (reviewedBy version)))))"

definition versionOf :: "regexp \<Rightarrow> GithubClient \<Rightarrow> Source \<Rightarrow> PullRequest \<Rightarrow> Version" where
  "versionOf re client source pull =
     (case scanPull re client source pull of
        Inl err \<Rightarrow> newVersion pull
      | Inr version \<Rightarrow> encodeVersion version)"

section \<open>Properties of the predicates\<close>

lemma statesLoop_iff: "statesLoop ss state ret \<longleftrightarrow> state \<in> set ss \<or> ret"
  by (induction ss) auto

lemma ignoreStatesLoop_iff: "ignoreStatesLoop ss state ret \<longleftrightarrow> state \<notin> set ss \<and> ret"
  by (induction ss) auto

text \<open>
  C9: the state predicate accepts a state exactly when the state is in the inclusion
  list, which is the single state \<open>open\<close> when none is configured, and is not in the
  exclusion list; a state in both lists is refused.
\<close>

theorem requestsState_iff:
  "(requestsState source state \<longleftrightarrow>
      state \<in> set (if States source = [] then [''open''] else States source) \<and>
      state \<notin> set (IgnoreStates source)) \<and>
   (state \<in> set (States source) \<and> state \<in> set (IgnoreStates source) \<longrightarrow>
      \<not> requestsState source state)"
  by (auto simp add: requestsState_def statesLoop_iff ignoreStatesLoop_iff)

theorem requestsState_iff_witness:
  "''closed'' \<in> set (States (exSource\<lparr>States := [''open'', ''closed''], IgnoreStates := [''closed'']\<rparr>)) \<and>
   ''closed'' \<in> set (IgnoreStates (exSource\<lparr>States := [''open'', ''closed''], IgnoreStates := [''closed'']\<rparr>)) \<and>
   \<not> requestsState (exSource\<lparr>States := [''open'', ''closed''], IgnoreStates := [''closed'']\<rparr>) ''closed'' \<and>
   requestsState (exSource\<lparr>States := [''open'', ''closed''], IgnoreStates := [''closed'']\<rparr>) ''open'' \<and>
   requestsState exSource ''open'' \<and> \<not> requestsState exSource ''closed''"
  using requestsState_iff [of "exSource\<lparr>States := [''open'', ''closed''], IgnoreStates := [''closed'']\<rparr>" "''closed''"]
    requestsState_iff [of "exSource\<lparr>States := [''open'', ''closed''], IgnoreStates := [''closed'']\<rparr>" "''open''"]
    requestsState_iff [of exSource "''open''"]
    requestsState_iff [of exSource "''closed''"]
  by (simp add: exSource_def)

text \<open>
  C5: for every count and every configured minimum, \<open>hasMinApprovers\<close> and
  \<open>hasMinReviewers\<close> hold exactly when the count is at least the larger of 1 and the
  minimum; with a minimum of 0 one match is still required.
\<close>

theorem hasMin_iff_max:
  "(hasMinApprovers source n \<longleftrightarrow> n \<ge> max 1 (MinApprovals source)) \<and>
   (hasMinReviewers source n \<longleftrightarrow> n \<ge> max 1 (MinReviews source)) \<and>
   (hasMinApprovers (source\<lparr>MinApprovals := 0\<rparr>) n \<longleftrightarrow> n \<ge> 1) \<and>
   (hasMinReviewers (source\<lparr>MinReviews := 0\<rparr>) n \<longleftrightarrow> n \<ge> 1)"
  by (auto simp add: hasMinApprovers_def hasMinReviewers_def)

theorem hasMin_iff_max_witness:
  "\<not> hasMinReviewers exSource 0 \<and> hasMinReviewers exSource 1 \<and>
   \<not> hasMinApprovers (exSource\<lparr>MinApprovals := 2\<rparr>) 1 \<and> hasMinApprovers (exSource\<lparr>MinApprovals := 2\<rparr>) 2"
  using hasMin_iff_max [of exSource 0] hasMin_iff_max [of exSource 1]
    hasMin_iff_max [of "exSource\<lparr>MinApprovals := 2\<rparr>" 1]
    hasMin_iff_max [of "exSource\<lparr>MinApprovals := 2\<rparr>" 2]
  by (simp add: exSource_def)

section \<open>Properties of the scanner\<close>

lemma touch_fields [simp]:
  "approvedBy (touch t v) = approvedBy v"
  "reviewedBy (touch t v) = reviewedBy v"
  "PrID (touch t v) = PrID v"
  "lastUpdated (touch t v) = max t (lastUpdated v)"
  by (simp_all add: touch_def)

lemma commentApprover_eq:
  "commentApprover re client source comment version =
     Some (if requestsApproverRegex re source (Comment_Body comment) \<and>
              requestsApproverTeam source client (User_Login (Comment_User comment))
           then (touch (Unix (Comment_CreatedAt comment)) version)
                  \<lparr>approvedBy := approvedBy version @ [commentResponse comment]\<rparr>
           else version)"
  by (simp add: commentApprover_def requestsApproveState_def Let_def)

lemma commentReviewer_eq:
  "commentReviewer re client source comment version =
     (if requestsReviewerRegex re source (Comment_Body comment) \<and>
         requestsReviewerTeam source client (User_Login (Comment_User comment))
      then (touch (Unix (Comment_CreatedAt comment)) version)
             \<lparr>reviewedBy := reviewedBy version @ [commentResponse comment]\<rparr>
      else version)"
  by (simp add: commentReviewer_def Let_def)

lemma reviewApprover_eq:
  "reviewApprover re client source review version =
     Some (if requestsApproverRegex re source (Review_Body review) \<and>
              requestsApproverTeam source client (User_Login (Review_User review))
           then (touch (Unix (Review_SubmittedAt review)) version)
                  \<lparr>approvedBy := approvedBy version @ [reviewResponse review]\<rparr>
           else version)"
  by (simp add: reviewApprover_def requestsApproveState_def Let_def)

lemma reviewReviewer_eq:
  "reviewReviewer re client source review version =
     (if requestsReviewerRegex re source (Review_Body review) \<and>
         requestsReviewerTeam source client (User_Login (Review_User review)) \<and>
         requestsReviewState source (Review_State review)
      then (touch (Unix (Review_SubmittedAt review)) version)
             \<lparr>reviewedBy := reviewedBy version @ [reviewResponse review]\<rparr>
      else version)"
  by (simp add: reviewReviewer_def Let_def)


lemma reviewsLoop_keeps:
  "(r \<in> set (approvedBy version) \<longrightarrow> r \<in> set (approvedBy (reviewsLoop re client source reviews version))) \<and>
   (r \<in> set (reviewedBy version) \<longrightarrow> r \<in> set (reviewedBy (reviewsLoop re client source reviews version))) \<and>
   PrID (reviewsLoop re client source reviews version) = PrID version"
  by (induction reviews arbitrary: version) (simp_all add: reviewApprover_eq reviewReviewer_eq)


lemma reviewsLoop_approval:
  assumes "review \<in> set reviews"
    and "requestsApproverRegex re source (Review_Body review)"
    and "requestsApproverTeam source client (User_Login (Review_User review))"
  shows "reviewResponse review \<in> set (approvedBy (reviewsLoop re client source reviews version))"
  using assms
proof (induction reviews arbitrary: version)
  case Nil
  then show ?case by simp
next
  case (Cons c reviews)
  show ?case
  proof (cases "review = c")
    case True
    with Cons.prems show ?thesis
      by (simp add: reviewApprover_eq reviewReviewer_eq reviewsLoop_keeps)
  next
    case False
    with Cons.prems have "review \<in> set reviews" by simp
    with Cons show ?thesis
      by (simp add: reviewApprover_eq)
  qed
qed

lemma commentsLoop_reviewedBy_subset:
  "set (reviewedBy (commentsLoop re client source comments version))
     \<subseteq> set (reviewedBy version) \<union> commentResponse ` set comments"
proof (induction comments arbitrary: version)
  case Nil
  then show ?case by simp
next
  case (Cons c comments)
  let ?v = "commentReviewer re client source c
              (if requestsApproverRegex re source (Comment_Body c) \<and>
                  requestsApproverTeam source client (User_Login (Comment_User c))
               then (touch (Unix (Comment_CreatedAt c)) version)
                      \<lparr>approvedBy := approvedBy version @ [commentResponse c]\<rparr>
               else version)"
  have "set (reviewedBy ?v) \<subseteq> set (reviewedBy version) \<union> {commentResponse c}"
    by (auto simp add: commentReviewer_eq)
  with Cons [of ?v] show ?case
    by (auto simp add: commentApprover_eq)
qed

lemma reviewsLoop_no_review_states:
  "ReviewStates source = [] \<Longrightarrow>
   reviewedBy (reviewsLoop re client source reviews version) = reviewedBy version"
  by (induction reviews arbitrary: version)
     (simp_all add: reviewApprover_eq reviewReviewer_eq requestsReviewState_def)

lemma scanPull_example: "scanPull exRegexp exClient exSource exPull = Inr exScanned"
  by (simp add: scanPull_def exClient_def exPull_def exComment_def exUser_def exTime_def
      newVersion_def Itoa_def FormatInt_def natStr.simps digitChar_def
      commentApprover_eq commentReviewer_eq requestsApproverRegex_def requestsApproverTeam_def
      requestsReviewerRegex_def requestsReviewerTeam_def exSource_def exRegexp_def exFind_def
      commentResponse_def touch_def exScanned_def exResponse_def)



text \<open>
  C3: whether a review is recorded as an approval is decided by the approver regex
  and the approver team: the block of the loop gives the same result whatever the state
  of the review, and every review of the list that passes the two tests is among the
  approvals.
\<close>

theorem review_approval_not_state_gated:
  "reviewApprover re client source (review\<lparr>Review_State := state\<rparr>) version =
     Some (if requestsApproverRegex re source (Review_Body review) \<and>
              requestsApproverTeam source client (User_Login (Review_User review))
           then (touch (Unix (Review_SubmittedAt review)) version)
                  \<lparr>approvedBy := approvedBy version @ [reviewResponse review]\<rparr>
           else version) \<and>
   (review \<in> set reviews \<and>
    requestsApproverRegex re source (Review_Body review) \<and>
    requestsApproverTeam source client (User_Login (Review_User review)) \<longrightarrow>
    reviewResponse review \<in> set (approvedBy (reviewsLoop re client source reviews version)))"
proof (intro conjI impI)
  show "reviewApprover re client source (review\<lparr>Review_State := state\<rparr>) version =
     Some (if requestsApproverRegex re source (Review_Body review) \<and>
              requestsApproverTeam source client (User_Login (Review_User review))
           then (touch (Unix (Review_SubmittedAt review)) version)
                  \<lparr>approvedBy := approvedBy version @ [reviewResponse review]\<rparr>
           else version)"
    by (simp add: reviewApprover_eq reviewResponse_def)
next
  assume "review \<in> set reviews \<and>
    requestsApproverRegex re source (Review_Body review) \<and>
    requestsApproverTeam source client (User_Login (Review_User review))"
  then show "reviewResponse review \<in> set (approvedBy (reviewsLoop re client source reviews version))"
    by (simp add: reviewsLoop_approval)
qed

theorem review_approval_not_state_gated_witness:
  "exReview \<in> set [exReview] \<and>
   requestsApproverRegex exRegexp exSource (Review_Body exReview) \<and>
   requestsApproverTeam exSource exClient (User_Login (Review_User exReview)) \<and>
   \<not> requestsReviewState exSource (Review_State exReview) \<and>
   reviewResponse exReview \<in> set (approvedBy (reviewsLoop exRegexp exClient exSource [exReview] (newVersion exPull)))"
proof -
  have h1: "requestsApproverRegex exRegexp exSource (Review_Body exReview)"
    by (simp add: requestsApproverRegex_def exSource_def exRegexp_def exFind_def exReview_def)
  have h2: "requestsApproverTeam exSource exClient (User_Login (Review_User exReview))"
    by (simp add: requestsApproverTeam_def exSource_def)
  have h3: "\<not> requestsReviewState exSource (Review_State exReview)"
    by (simp add: requestsReviewState_def exSource_def)
  from review_approval_not_state_gated [where re = exRegexp and client = exClient and
      source = exSource and review = exReview and version = "newVersion exPull" and
      reviews = "[exReview]"] h1 h2 h3
  show ?thesis by simp
qed

lemma excludeLoop_iff:
  "excludeLoop rls labels ret \<longleftrightarrow> ret \<and> \<not> (\<exists>rl\<in>set rls. rl \<in> set labels)"
proof -
  have l: "labelLoop rl labels \<longleftrightarrow> rl \<in> set labels" for rl
    by (induction labels) auto
  show ?thesis
    by (induction rls) (auto simp add: l)
qed

text \<open>
  C10, as the code has it: with no review state configured, \<open>requestsReviewState\<close> is
  false for every state, the reviewer block of the review loop changes nothing, and the
  reviews of a scanned pull request are all comments.  The empty lists of reviewer
  patterns and of reviewer teams accept everything, and the empty list of labels all
  but the excluded labels.  The empty list of states is no wildcard: it stands for the
  single state \<open>open\<close>.
\<close>

theorem empty_review_states_match_nothing:
  "(ReviewStates source = [] \<longrightarrow>
      \<not> requestsReviewState source state \<and>
      reviewReviewer re client source review version = version \<and>
      reviewedBy (reviewsLoop re client source reviews version) = reviewedBy version \<and>
      (ListPullRequestComments client (Pull_Number pull) = Inr comments \<and>
       scanPull re client source pull = Inr scanned \<longrightarrow>
       set (reviewedBy scanned) \<subseteq> commentResponse ` set comments)) \<and>
   (ReviewerComments source = [] \<longrightarrow> requestsReviewerRegex re source body) \<and>
   (ReviewerTeams source = [] \<longrightarrow> requestsReviewerTeam source client login) \<and>
   (Labels source = [] \<longrightarrow>
      (requestsLabels source labels \<longleftrightarrow> \<not> (\<exists>rl\<in>set (IgnoreLabels source). rl \<in> set labels))) \<and>
   (States source = [] \<longrightarrow>
      (requestsState source state \<longleftrightarrow> state = ''open'' \<and> state \<notin> set (IgnoreStates source)))"
proof -
  have "set (reviewedBy scanned) \<subseteq> commentResponse ` set comments"
    if "ReviewStates source = []"
      and "ListPullRequestComments client (Pull_Number pull) = Inr comments"
      and "scanPull re client source pull = Inr scanned"
  proof -
    let ?v = "commentsLoop re client source comments (newVersion pull)"
    from that(2,3) obtain reviews' where "scanned = reviewsLoop re client source reviews' ?v"
      by (auto simp add: scanPull_def Let_def split: sum.splits)
    then have "reviewedBy scanned = reviewedBy ?v"
      using that(1) by (simp add: reviewsLoop_no_review_states)
    then show ?thesis
      using commentsLoop_reviewedBy_subset [of re client source comments "newVersion pull"]
      by (simp add: newVersion_def)
  qed
  then show ?thesis
    by (auto simp add: requestsReviewState_def reviewReviewer_eq reviewsLoop_no_review_states
        requestsReviewerRegex_def requestsReviewerTeam_def requestsLabels_def requestsState_def
        excludeLoop_iff ignoreStatesLoop_iff)
qed

theorem empty_review_states_match_nothing_witness:
  "ReviewStates exSource = [] \<and>
   requestsReviewerRegex exRegexp exSource (Review_Body exReview) \<and>
   requestsReviewerTeam exSource exClient (User_Login (Review_User exReview)) \<and>
   \<not> requestsReviewState exSource ''CHANGES_REQUESTED'' \<and>
   reviewedBy (reviewsLoop exRegexp exClient exSource [exReview] (newVersion exPull)) = [] \<and>
   requestsLabels exSource [''bug''] \<and>
   requestsState exSource ''open'' \<and> \<not> requestsState exSource ''closed''"
  using empty_review_states_match_nothing [where source = exSource and
      state = "''CHANGES_REQUESTED''" and re = exRegexp and client = exClient and
      reviews = "[exReview]" and version = "newVersion exPull" and
      body = "Review_Body exReview" and login = "User_Login (Review_User exReview)" and
      labels = "[''bug'']"]
    empty_review_states_match_nothing [where source = exSource and state = "''open''"]
    empty_review_states_match_nothing [where source = exSource and state = "''closed''"]
  by (simp add: exSource_def newVersion_def)

text \<open>
  C10, as the claim has it, counts the state predicate among those for which an empty
  configuration is a wildcard.  With no state and no ignored state configured, the
  state \<open>closed\<close> is refused.
\<close>

theorem empty_states_not_wildcard_counterexample:
  "States exSource = [] \<and> IgnoreStates exSource = [] \<and> \<not> requestsState exSource ''closed''"
  by (simp add: exSource_def requestsState_def)

section \<open>Properties of the JSON texts\<close>

lemma hexVal_hexDigit: "\<forall>d<16. hexVal (hexDigit d) = Some d"
  by (simp add: eval_nat_numeral All_less_Suc hexDigit_def hexVal_def)

lemma scanner_escapeByte:
  assumes "(of_char c :: nat) < 128"
  shows "scanner (InStr acc) toks (escapeByte c @ rest) = scanner (InStr (acc @ [c])) toks rest"
proof (cases "htmlSafe c")
  case True
  then show ?thesis
    by (simp add: escapeByte_def scanStep_def htmlSafe_def)
next
  case False
  note unsafe = this
  consider "c = CHR 0x5C \<or> c = CHR 0x22" | "c = CHR 0x0A" | "c = CHR 0x0D" | "c = CHR 0x09"
    | "c \<noteq> CHR 0x5C" "c \<noteq> CHR 0x22" "c \<noteq> CHR 0x0A" "c \<noteq> CHR 0x0D" "c \<noteq> CHR 0x09"
    by blast
  then show ?thesis
  proof cases
    case 1
    then show ?thesis using assms by (auto simp add: escapeByte_def scanStep_def htmlSafe_def)
  next
    case 2
    then show ?thesis by (simp add: escapeByte_def scanStep_def htmlSafe_def)
  next
    case 3
    then show ?thesis by (simp add: escapeByte_def scanStep_def htmlSafe_def)
  next
    case 4
    then show ?thesis by (simp add: escapeByte_def scanStep_def htmlSafe_def)
  next
    case 5
    let ?n = "of_char c :: nat"
    have hi: "hexVal (hexDigit (?n div 16)) = Some (?n div 16)"
      using assms hexVal_hexDigit by simp
    have lo: "hexVal (hexDigit (?n mod 16)) = Some (?n mod 16)"
      using hexVal_hexDigit by simp
    have zero: "hexVal CHR ''0'' = Some 0"
      by (simp add: hexVal_def)
    have esc: "escapeByte c = [CHR 0x5C, CHR ''u'', CHR ''0'', CHR ''0'',
        hexDigit (?n div 16), hexDigit (?n mod 16)]"
      using 5 unsafe assms by (simp add: escapeByte_def)
    show ?thesis
      using assms by (simp add: esc scanStep_def hi lo zero)
  qed
qed

lemma scanner_escaped:
  "ascii s \<Longrightarrow>
   scanner (InStr acc) toks (concat (map escapeByte s) @ CHR 0x22 # rest) =
   scanner Out (toks @ [Str (acc @ s)]) rest"
proof (induction s arbitrary: acc)
  case Nil
  then show ?case by (simp add: scanStep_def)
next
  case (Cons c s)
  then show ?case
    by (simp add: ascii_def scanner_escapeByte)
qed

lemma scanner_quote:
  "ascii s \<Longrightarrow> scanner Out toks (quote s @ rest) = scanner Out (toks @ [Str s]) rest"
  using scanner_escaped [of s "[]" toks rest]
  by (simp add: quote_def scanStep_def)

lemma scanner_Marshal_Response:
  assumes "asciiResponse r"
  shows "scanner Out toks (Marshal_Response r @ rest) = scanner Out (toks @ responseTokens r) rest"
proof -
  have keys: "ascii ''review_id''" "ascii ''comment_id''" "ascii ''created_at''"
    by (simp_all add: ascii_def)
  have vals: "ascii (ReviewID r)" "ascii (CommentID r)" "ascii (CreatedAt r)"
    using assms by (simp_all add: asciiResponse_def)
  show ?thesis
    by (simp add: Marshal_Response_def responseTokens_def scanStep_def
        scanner_quote [OF keys(1)] scanner_quote [OF keys(2)] scanner_quote [OF keys(3)]
        scanner_quote [OF vals(1)] scanner_quote [OF vals(2)] scanner_quote [OF vals(3)])
qed

lemma scanner_joinComma:
  "list_all asciiResponse rs \<Longrightarrow>
   scanner Out toks (joinComma (map Marshal_Response rs) @ rest) =
   scanner Out (toks @ listTokens rs) rest"
proof (induction rs arbitrary: toks rule: listTokens.induct)
  case 1
  then show ?case by simp
next
  case (2 r)
  then show ?case by (simp add: scanner_Marshal_Response)
next
  case (3 r r' rs)
  then show ?case by (simp add: scanner_Marshal_Response scanStep_def)
qed

lemma scanner_Marshal_Responses:
  "list_all asciiResponse rs \<Longrightarrow>
   scanner Out [] (Marshal_Responses rs) =
   Some (if rs = [] then [Null] else [LBracket] @ listTokens rs @ [RBracket])"
  using scanner_joinComma [of rs "[LBracket]" "'']''"]
  by (simp add: Marshal_Responses_def scanStep_def)

lemma setField_all:
  "setField (setField (setField \<lparr>ReviewID = [], CommentID = [], CreatedAt = []\<rparr>
      ''review_id'' (ReviewID r)) ''comment_id'' (CommentID r)) ''created_at'' (CreatedAt r) = r"
  by (simp add: setField_def ToLower_def lowerChar_def)

lemma decode_responseTokens:
  "e = Elem \<or> e = ElemOrClose \<Longrightarrow>
   decode e acc (responseTokens r @ ts) = decode AfterElem (acc @ [r]) ts"
  by (auto simp add: responseTokens_def decodeStep_def setField_all)

lemma decode_listTokens:
  "rs \<noteq> [] \<Longrightarrow> e = Elem \<or> e = ElemOrClose \<Longrightarrow>
   decode e acc (listTokens rs @ [RBracket]) = Some (acc @ rs)"
proof (induction rs arbitrary: acc e rule: listTokens.induct)
  case 1
  then show ?case by simp
next
  case (2 r)
  then show ?case
    by (simp add: decode_responseTokens decodeStep_def)
next
  case (3 r r' rs)
  have "decode Elem (acc @ [r]) (listTokens (r' # rs) @ [RBracket]) = Some ((acc @ [r]) @ r' # rs)"
    by (rule 3) simp_all
  with 3(3) show ?case
    by (simp add: decode_responseTokens decodeStep_def)
qed

lemma Unmarshal_Marshal:
  assumes "list_all asciiResponse rs"
  shows "Unmarshal_Responses (Marshal_Responses rs) = Inr rs"
proof (cases "rs = []")
  case True
  then show ?thesis
    by (simp add: Unmarshal_Responses_def scanner_Marshal_Responses decodeStep_def)
next
  case False
  have "decode ElemOrClose [] (listTokens rs @ [RBracket]) = Some ([] @ rs)"
    using False by (rule decode_listTokens) simp
  then have "decode Start [] ([LBracket] @ listTokens rs @ [RBracket]) = Some rs"
    by (simp add: decodeStep_def)
  then show ?thesis
    using assms False by (simp add: Unmarshal_Responses_def scanner_Marshal_Responses)
qed

subsection \<open>Decimal texts\<close>

lemma of_char_digitChar: "\<forall>d<10. (of_char (digitChar d) :: nat) = 48 + d"
  by (simp add: eval_nat_numeral All_less_Suc digitChar_def)

lemma digitsValue_snoc: "digitsValue (ds @ [c]) = 10 * digitsValue ds + (int (of_char c) - 48)"
  by (simp add: digitsValue_def)

lemma digitsValue_natStr: "digitsValue (natStr n) = int n"
proof (induction n rule: natStr.induct)
  case (1 n)
  show ?case
  proof (cases "n < 10")
    case True
    then show ?thesis
      using of_char_digitChar by (simp add: natStr.simps [of n] digitsValue_def)
  next
    case False
    have "n mod 10 < 10" by simp
    then have "int (of_char (digitChar (n mod 10))) - 48 = int (n mod 10)"
      using of_char_digitChar by simp
    with False 1 show ?thesis
      by (simp add: natStr.simps [of n] digitsValue_snoc zmod_int zdiv_int)
  qed
qed

lemma natStr_digits: "list_all isDigit (natStr n)"
proof (induction n rule: natStr.induct)
  case (1 n)
  have d: "isDigit (digitChar m)" if "m < 10" for m
    using that of_char_digitChar by (simp add: isDigit_def)
  show ?case
  proof (cases "n < 10")
    case True
    then show ?thesis by (simp add: natStr.simps [of n] d)
  next
    case False
    with 1 show ?thesis by (simp add: natStr.simps [of n] d)
  qed
qed

lemma natStr_not_Nil: "natStr n \<noteq> []"
  by (subst natStr.simps) simp

lemma natStr_hd: "hd (natStr n) \<noteq> CHR ''-''"
proof -
  have "isDigit (hd (natStr n))"
    using natStr_digits [of n] natStr_not_Nil [of n] by (cases "natStr n") simp_all
  then show ?thesis by (auto simp add: isDigit_def)
qed

lemma decimalValue_FormatInt: "decimalValue (FormatInt t) = t"
  by (simp add: decimalValue_def FormatInt_def natStr_not_Nil natStr_hd digitsValue_natStr)

lemma ascii_FormatInt: "ascii (FormatInt t)"
proof -
  have "ascii (natStr n)" for n
    using natStr_digits [of n] by (induction "natStr n") (auto simp add: ascii_def isDigit_def list_all_iff)
  then show ?thesis by (simp add: FormatInt_def ascii_def)
qed

section \<open>Properties of the versions that the scanner returns\<close>

lemma asciiResponse_made [simp]:
  "asciiResponse (commentResponse comment)" "asciiResponse (reviewResponse review)"
  by (simp_all add: asciiResponse_def commentResponse_def reviewResponse_def ascii_FormatInt)
     (simp_all add: ascii_def)

lemma stamp_made [simp]:
  "stamp (commentResponse comment) = Unix (Comment_CreatedAt comment)"
  "stamp (reviewResponse review) = Unix (Review_SubmittedAt review)"
  by (simp_all add: stamp_def commentResponse_def reviewResponse_def decimalValue_FormatInt)

lemma scanInv_new: "scanInv (newVersion pull)"
  by (simp add: scanInv_def newVersion_def stamps_def)

lemma scanInv_approve:
  assumes "scanInv v" "asciiResponse r"
  shows "scanInv ((touch (stamp r) v)\<lparr>approvedBy := approvedBy v @ [r]\<rparr>)"
proof -
  have "stamps ((touch (stamp r) v)\<lparr>approvedBy := approvedBy v @ [r]\<rparr>) = insert (stamp r) (stamps v)"
    by (auto simp add: stamps_def)
  moreover have "finite (stamps v)" by (simp add: stamps_def)
  ultimately show ?thesis
    using assms by (simp add: scanInv_def insert_commute [of 0] max.commute)
qed

lemma scanInv_review:
  assumes "scanInv v" "asciiResponse r"
  shows "scanInv ((touch (stamp r) v)\<lparr>reviewedBy := reviewedBy v @ [r]\<rparr>)"
proof -
  have "stamps ((touch (stamp r) v)\<lparr>reviewedBy := reviewedBy v @ [r]\<rparr>) = insert (stamp r) (stamps v)"
    by (auto simp add: stamps_def)
  moreover have "finite (stamps v)" by (simp add: stamps_def)
  ultimately show ?thesis
    using assms by (simp add: scanInv_def insert_commute [of 0] max.commute)
qed

lemma scanInv_commentsLoop:
  "scanInv v \<Longrightarrow> scanInv (commentsLoop re client source comments v)"
proof (induction comments arbitrary: v)
  case Nil
  then show ?case by simp
next
  case (Cons c comments)
  let ?r = "commentResponse c"
  let ?a = "if requestsApproverRegex re source (Comment_Body c) \<and>
               requestsApproverTeam source client (User_Login (Comment_User c))
            then (touch (Unix (Comment_CreatedAt c)) v)\<lparr>approvedBy := approvedBy v @ [?r]\<rparr> else v"
  have a: "scanInv ?a"
    using Cons.prems scanInv_approve [of v ?r] by simp
  have "scanInv (commentReviewer re client source c ?a)"
    using a scanInv_review [of ?a ?r] by (simp add: commentReviewer_eq)
  then show ?case
    using Cons.IH by (simp add: commentApprover_eq)
qed

lemma scanInv_reviewsLoop:
  "scanInv v \<Longrightarrow> scanInv (reviewsLoop re client source reviews v)"
proof (induction reviews arbitrary: v)
  case Nil
  then show ?case by simp
next
  case (Cons c reviews)
  let ?r = "reviewResponse c"
  let ?a = "if requestsApproverRegex re source (Review_Body c) \<and>
               requestsApproverTeam source client (User_Login (Review_User c))
            then (touch (Unix (Review_SubmittedAt c)) v)\<lparr>approvedBy := approvedBy v @ [?r]\<rparr> else v"
  have a: "scanInv ?a"
    using Cons.prems scanInv_approve [of v ?r] by simp
  have "scanInv (reviewReviewer re client source c ?a)"
    using a scanInv_review [of ?a ?r] by (simp add: reviewReviewer_eq)
  then show ?case
    using Cons.IH by (simp add: reviewApprover_eq)
qed

lemma scanInv_scanPull: "scanPull re client source pull = Inr v \<Longrightarrow> scanInv v"
  by (auto simp add: scanPull_def Let_def scanInv_new scanInv_commentsLoop scanInv_reviewsLoop
      split: sum.splits)

lemma encodeVersion_fields [simp]:
  "approvedBy (encodeVersion v) = approvedBy v"
  "reviewedBy (encodeVersion v) = reviewedBy v"
  "lastUpdated (encodeVersion v) = lastUpdated v"
  "PrID (encodeVersion v) = PrID v"
  "ApprovedBy (encodeVersion v) = Marshal_Responses (approvedBy v)"
  "ReviewedBy (encodeVersion v) = Marshal_Responses (reviewedBy v)"
  by (simp_all add: encodeVersion_def)

lemma pullsLoop_elements:
  "pullsLoop re client source pulls versions = Inr out \<Longrightarrow> v \<in> set out \<Longrightarrow>
   v \<in> set versions \<or>
   (\<exists>pull scanned. pull \<in> set pulls \<and> \<not> skipped source pull \<and>
      scanPull re client source pull = Inr scanned \<and> v = encodeVersion scanned \<and>
      hasMinApprovers source (int (length (approvedBy scanned))) \<and>
      hasMinReviewers source (int (length (reviewedBy scanned))))"
proof (induction pulls arbitrary: versions)
  case Nil
  then show ?case by simp
next
  case (Cons pull pulls)
  show ?case
  proof (cases "skipped source pull")
    case True
    with Cons.prems have "pullsLoop re client source pulls versions = Inr out" by simp
    from Cons.IH [OF this Cons.prems(2)] show ?thesis by auto
  next
    case False
    with Cons.prems obtain scanned where s: "scanPull re client source pull = Inr scanned"
      by (auto split: sum.splits)
    show ?thesis
    proof (cases "hasMinApprovers source (int (length (approvedBy scanned))) \<and>
                  hasMinReviewers source (int (length (reviewedBy scanned)))")
      case True
      with False s Cons.prems
      have "pullsLoop re client source pulls (versions @ [encodeVersion scanned]) = Inr out" by simp
      from Cons.IH [OF this Cons.prems(2)] False s True show ?thesis by auto
    next
      case no: False
      with False s Cons.prems
      have "pullsLoop re client source pulls versions = Inr out" by auto
      from Cons.IH [OF this Cons.prems(2)] show ?thesis by auto
    qed
  qed
qed

lemma Check_elements:
  assumes "Check re api req = Inr versions" and "v \<in> set versions"
  shows "\<exists>client pulls pull scanned.
           NewGithubClient api (check_Source req) = Inr client \<and>
           ListPullRequests client = Inr pulls \<and> pull \<in> set pulls \<and>
           \<not> skipped (check_Source req) pull \<and>
           scanPull re client (check_Source req) pull = Inr scanned \<and> v = encodeVersion scanned \<and>
           hasMinApprovers (check_Source req) (int (length (approvedBy scanned))) \<and>
           hasMinReviewers (check_Source req) (int (length (reviewedBy scanned)))"
proof -
  from assms(1) obtain client pulls out where c: "NewGithubClient api (check_Source req) = Inr client"
    and p: "ListPullRequests client = Inr pulls"
    and l: "pullsLoop re client (check_Source req) pulls [] = Inr out"
    and o: "versions = sortSlice out"
    by (auto simp add: Check_def split: sum.splits option.splits)
  from o assms(2) have "v \<in> set out" by (simp add: sortSlice_def)
  from pullsLoop_elements [OF l this] c p show ?thesis by auto
qed

lemma Check_sorted: "Check re api req = Inr versions \<Longrightarrow> sorted (map lastUpdated versions)"
  by (auto simp add: Check_def sortSlice_def split: sum.splits option.splits)

lemma Check_example: "Check exRegexp exApi exCheckRequest = Inr [encodeVersion exScanned]"
proof -
  have pulls: "ListPullRequests exClient = Inr [exPull]"
    by (simp add: exClient_def)
  have teams: "ReviewerTeams exSource = []"
    by (simp add: exSource_def)
  have kept: "\<not> skipped exSource exPull"
    by (simp add: skipped_def exSource_def exPull_def requestsState_def requestsLabels_def)
  have mins: "hasMinApprovers exSource (int (length (approvedBy exScanned)))"
    "hasMinReviewers exSource (int (length (reviewedBy exScanned)))"
    by (simp_all add: hasMinApprovers_def hasMinReviewers_def exSource_def exScanned_def)
  show ?thesis
    by (simp add: Check_def NewGithubClient_def exApi_def exCheckRequest_def pulls teams kept
        scanPull_example mins sortSlice_def)
qed

text \<open>
  C7: a list of responses written by \<open>json.Marshal\<close> and read back by
  \<open>json.Unmarshal\<close> is the same list, for every list of responses in ASCII; and the
  two texts of every version that the scanner puts out decode to the very lists of
  responses the scanner has gathered for it.
\<close>

theorem encode_decode_identity:
  "(list_all asciiResponse rs \<longrightarrow> Unmarshal_Responses (Marshal_Responses rs) = Inr rs) \<and>
   (Check re api req = Inr versions \<and> v \<in> set versions \<longrightarrow>
      Unmarshal_Responses (ApprovedBy v) = Inr (approvedBy v) \<and>
      Unmarshal_Responses (ReviewedBy v) = Inr (reviewedBy v))"
proof (intro conjI impI)
  assume "list_all asciiResponse rs"
  then show "Unmarshal_Responses (Marshal_Responses rs) = Inr rs"
    by (rule Unmarshal_Marshal)
next
  assume a: "Check re api req = Inr versions \<and> v \<in> set versions"
  then obtain client pull scanned
    where s: "scanPull re client (check_Source req) pull = Inr scanned" and v: "v = encodeVersion scanned"
    using Check_elements [of re api req versions v] by blast
  from s have "scanInv scanned" by (rule scanInv_scanPull)
  then have "list_all asciiResponse (approvedBy scanned)" "list_all asciiResponse (reviewedBy scanned)"
    by (simp_all add: scanInv_def)
  then show "Unmarshal_Responses (ApprovedBy v) = Inr (approvedBy v)"
    and "Unmarshal_Responses (ReviewedBy v) = Inr (reviewedBy v)"
    by (simp_all add: v Unmarshal_Marshal)
qed

theorem encode_decode_identity_witness:
  "list_all asciiResponse [exResponse, exResponse\<lparr>ReviewID := ''<7>''\<rparr>] \<and>
   Unmarshal_Responses (Marshal_Responses [exResponse, exResponse\<lparr>ReviewID := ''<7>''\<rparr>])
     = Inr [exResponse, exResponse\<lparr>ReviewID := ''<7>''\<rparr>] \<and>
   Check exRegexp exApi exCheckRequest = Inr [encodeVersion exScanned] \<and>
   Unmarshal_Responses (ApprovedBy (encodeVersion exScanned)) = Inr [exResponse] \<and>
   Unmarshal_Responses (ReviewedBy (encodeVersion exScanned)) = Inr [exResponse]"
proof -
  have h1: "list_all asciiResponse [exResponse, exResponse\<lparr>ReviewID := ''<7>''\<rparr>]"
    by (simp add: asciiResponse_def ascii_def exResponse_def)
  have h2: "encodeVersion exScanned \<in> set [encodeVersion exScanned]" by simp
  from encode_decode_identity [of "[exResponse, exResponse\<lparr>ReviewID := ''<7>''\<rparr>]"
      exRegexp exApi exCheckRequest "[encodeVersion exScanned]" "encodeVersion exScanned"]
    h1 h2 Check_example
  show ?thesis by (simp add: exScanned_def)
qed

lemma pullsLoop_built:
  "pullsLoop re client source pulls versions = Inr out \<Longrightarrow>
   out = versions @ map (versionOf re client source) (filter (qualifying re client source) pulls)"
proof (induction pulls arbitrary: versions)
  case Nil
  then show ?case by simp
next
  case (Cons pull pulls)
  show ?case
  proof (cases "skipped source pull")
    case True
    with Cons show ?thesis by (simp add: qualifying_def)
  next
    case False
    with Cons.prems obtain scanned where s: "scanPull re client source pull = Inr scanned"
      by (auto split: sum.splits)
    show ?thesis
    proof (cases "hasMinApprovers source (int (length (approvedBy scanned))) \<and>
                  hasMinReviewers source (int (length (reviewedBy scanned)))")
      case True
      with False s Cons.prems
      have "pullsLoop re client source pulls (versions @ [encodeVersion scanned]) = Inr out" by simp
      from Cons.IH [OF this] False s True show ?thesis
        by (simp add: qualifying_def versionOf_def)
    next
      case no: False
      with False s Cons.prems have "pullsLoop re client source pulls versions = Inr out" by auto
      from Cons.IH [OF this] False s no show ?thesis
        by (auto simp add: qualifying_def)
    qed
  qed
qed

lemma Check_permutation:
  assumes "Check re api req = Inr versions"
  shows "\<exists>client pulls.
           NewGithubClient api (check_Source req) = Inr client \<and>
           ListPullRequests client = Inr pulls \<and>
           mset versions =
             mset (map (versionOf re client (check_Source req))
                    (filter (qualifying re client (check_Source req)) pulls))"
proof -
  from assms obtain client pulls out where c: "NewGithubClient api (check_Source req) = Inr client"
    and p: "ListPullRequests client = Inr pulls"
    and l: "pullsLoop re client (check_Source req) pulls [] = Inr out"
    and o: "versions = sortSlice out"
    by (auto simp add: Check_def split: sum.splits option.splits)
  from pullsLoop_built [OF l] o have "mset versions =
      mset (map (versionOf re client (check_Source req))
             (filter (qualifying re client (check_Source req)) pulls))"
    by (simp add: sortSlice_def)
  with c p show ?thesis by blast
qed

lemma ToLower_example:
  "ToLower ''CHANGES_REQUESTED'' = ''changes_requested''"
  "ToLower ''changes_requested'' = ''changes_requested''"
  by code_simp+

lemma scanPull_two:
  "scanPull exRegexp exClientTwo exSourceTwo exPull = Inr exScanned"
  "scanPull exRegexp exClientTwo exSourceTwo exPullSix = Inr exScannedSix"
  by (simp_all add: scanPull_def exClientTwo_def exPull_def exPullSix_def exComment_def exUser_def
      exTime_def exEarly_def exReviewSix_def newVersion_def Itoa_def FormatInt_def natStr.simps
      digitChar_def commentApprover_eq commentReviewer_eq reviewApprover_eq reviewReviewer_eq
      requestsApproverRegex_def requestsApproverTeam_def requestsReviewerRegex_def
      requestsReviewerTeam_def requestsReviewState_def ToLower_example exSourceTwo_def exSource_def
      exRegexp_def exFind_def commentResponse_def reviewResponse_def touch_def exScanned_def
      exResponse_def exScannedSix_def exResponseSix_def)

lemma qualifying_two:
  "filter (qualifying exRegexp exClientTwo exSourceTwo) [exPull, exPullSix] = [exPull, exPullSix]"
  "map (versionOf exRegexp exClientTwo exSourceTwo) [exPull, exPullSix] =
     [encodeVersion exScanned, encodeVersion exScannedSix]"
proof -
  have kept: "\<not> skipped exSourceTwo exPull" "\<not> skipped exSourceTwo exPullSix"
    by (simp_all add: skipped_def exSourceTwo_def exSource_def exPull_def exPullSix_def
        requestsState_def requestsLabels_def)
  have mins: "hasMinApprovers exSourceTwo 1" "hasMinReviewers exSourceTwo 1"
    by (simp_all add: hasMinApprovers_def hasMinReviewers_def exSourceTwo_def exSource_def)
  show "filter (qualifying exRegexp exClientTwo exSourceTwo) [exPull, exPullSix] = [exPull, exPullSix]"
    by (simp add: qualifying_def kept scanPull_two) (simp add: exScanned_def exScannedSix_def mins)
  show "map (versionOf exRegexp exClientTwo exSourceTwo) [exPull, exPullSix] =
     [encodeVersion exScanned, encodeVersion exScannedSix]"
    by (simp add: versionOf_def scanPull_two)
qed

lemma Check_two:
  "Check exRegexp exApiTwo exCheckRequestTwo = Inr [encodeVersion exScannedSix, encodeVersion exScanned]"
proof -
  have pulls: "ListPullRequests exClientTwo = Inr [exPull, exPullSix]"
    by (simp add: exClientTwo_def)
  have teams: "ReviewerTeams exSourceTwo = []"
    by (simp add: exSourceTwo_def exSource_def)
  have kept: "\<not> skipped exSourceTwo exPull" "\<not> skipped exSourceTwo exPullSix"
    by (simp_all add: skipped_def exSourceTwo_def exSource_def exPull_def exPullSix_def
        requestsState_def requestsLabels_def)
  have mins: "hasMinApprovers exSourceTwo (int (length (approvedBy exScanned)))"
    "hasMinReviewers exSourceTwo (int (length (reviewedBy exScanned)))"
    "hasMinApprovers exSourceTwo (int (length (approvedBy exScannedSix)))"
    "hasMinReviewers exSourceTwo (int (length (reviewedBy exScannedSix)))"
    by (simp_all add: hasMinApprovers_def hasMinReviewers_def exSourceTwo_def exSource_def
        exScanned_def exScannedSix_def)
  have keys: "lastUpdated exScanned = 1600000000" "lastUpdated exScannedSix = 1500000000"
    by (simp_all add: exScanned_def exScannedSix_def)
  show ?thesis
    by (simp add: Check_def NewGithubClient_def exApiTwo_def exCheckRequestTwo_def exCheckRequest_def
        pulls teams kept scanPull_two mins sortSlice_def keys)
qed

text \<open>
  C6: the versions that the scanner returns are in ascending order of \<open>lastUpdated\<close>,
  and they are, in some order, the versions of the listed pull requests that qualify.
  For each of them \<open>lastUpdated\<close> is the largest of 0, where the running value starts,
  and the time stamps of its approvals and reviews; so it is the largest time stamp as
  soon as one of them is not before the epoch.
\<close>

theorem Check_sorted_by_last_activity:
  assumes "Check re api req = Inr versions"
  shows "sorted (map lastUpdated versions) \<and>
         (\<exists>client pulls.
            NewGithubClient api (check_Source req) = Inr client \<and>
            ListPullRequests client = Inr pulls \<and>
            mset versions =
              mset (map (versionOf re client (check_Source req))
                     (filter (qualifying re client (check_Source req)) pulls))) \<and>
         (\<forall>v\<in>set versions.
            lastUpdated v = Max (insert 0 (stamps v)) \<and>
            ((\<exists>t\<in>stamps v. 0 \<le> t) \<longrightarrow> lastUpdated v = Max (stamps v)))"
proof (intro conjI ballI impI)
  show "sorted (map lastUpdated versions)"
    using assms by (rule Check_sorted)
next
  show "\<exists>client pulls.
            NewGithubClient api (check_Source req) = Inr client \<and>
            ListPullRequests client = Inr pulls \<and>
            mset versions =
              mset (map (versionOf re client (check_Source req))
                     (filter (qualifying re client (check_Source req)) pulls))"
    using assms by (rule Check_permutation)
next
  fix v assume "v \<in> set versions"
  then obtain client pull scanned
    where s: "scanPull re client (check_Source req) pull = Inr scanned" and v: "v = encodeVersion scanned"
    using Check_elements [OF assms] by blast
  from s have "scanInv scanned" by (rule scanInv_scanPull)
  then show m: "lastUpdated v = Max (insert 0 (stamps v))"
    by (simp add: v scanInv_def stamps_def)
  assume "\<exists>t\<in>stamps v. 0 \<le> t"
  then obtain t where t: "t \<in> stamps v" "0 \<le> t" by blast
  have f: "finite (stamps v)" by (simp add: stamps_def)
  with t have "0 \<le> Max (stamps v)" using Max_ge [OF f t(1)] by linarith
  moreover have "Max (insert 0 (stamps v)) = max 0 (Max (stamps v))"
    using f t(1) by (intro Max_insert) auto
  ultimately show "lastUpdated v = Max (stamps v)"
    using m by simp
qed

theorem Check_sorted_by_last_activity_witness:
  "Check exRegexp exApiTwo exCheckRequestTwo = Inr [encodeVersion exScannedSix, encodeVersion exScanned] \<and>
   ListPullRequests exClientTwo = Inr [exPull, exPullSix] \<and>
   map (versionOf exRegexp exClientTwo exSourceTwo)
     (filter (qualifying exRegexp exClientTwo exSourceTwo) [exPull, exPullSix])
     = [encodeVersion exScanned, encodeVersion exScannedSix] \<and>
   map lastUpdated [encodeVersion exScannedSix, encodeVersion exScanned] = [1500000000, 1600000000] \<and>
   \<not> sorted (map lastUpdated [encodeVersion exScanned, encodeVersion exScannedSix]) \<and>
   sorted (map lastUpdated [encodeVersion exScannedSix, encodeVersion exScanned]) \<and>
   mset [encodeVersion exScannedSix, encodeVersion exScanned] =
     mset (map (versionOf exRegexp exClientTwo exSourceTwo)
            (filter (qualifying exRegexp exClientTwo exSourceTwo) [exPull, exPullSix])) \<and>
   stamps (encodeVersion exScannedSix) = {1500000000} \<and>
   stamps (encodeVersion exScanned) = {1600000000} \<and>
   lastUpdated (encodeVersion exScannedSix) = Max (stamps (encodeVersion exScannedSix)) \<and>
   lastUpdated (encodeVersion exScanned) = Max (stamps (encodeVersion exScanned))"
proof -
  have h: "stamps (encodeVersion exScanned) = {1600000000}"
    "stamps (encodeVersion exScannedSix) = {1500000000}"
    by (simp_all add: stamps_def stamp_def decimalValue_def digitsValue_def exScanned_def
        exResponse_def exScannedSix_def exResponseSix_def)
  have c: "NewGithubClient exApiTwo (check_Source exCheckRequestTwo) = Inr exClientTwo"
    "check_Source exCheckRequestTwo = exSourceTwo"
    "ListPullRequests exClientTwo = Inr [exPull, exPullSix]"
    by (simp_all add: NewGithubClient_def exApiTwo_def exCheckRequestTwo_def exClientTwo_def)
  have k: "map lastUpdated [encodeVersion exScannedSix, encodeVersion exScanned] = [1500000000, 1600000000]"
    "map lastUpdated [encodeVersion exScanned, encodeVersion exScannedSix] = [1600000000, 1500000000]"
    by (simp_all add: exScanned_def exScannedSix_def)
  from Check_sorted_by_last_activity [OF Check_two] c
  have "sorted (map lastUpdated [encodeVersion exScannedSix, encodeVersion exScanned])"
    "mset [encodeVersion exScannedSix, encodeVersion exScanned] =
       mset (map (versionOf exRegexp exClientTwo exSourceTwo)
              (filter (qualifying exRegexp exClientTwo exSourceTwo) [exPull, exPullSix]))"
    "lastUpdated (encodeVersion exScannedSix) = Max (stamps (encodeVersion exScannedSix))"
    "lastUpdated (encodeVersion exScanned) = Max (stamps (encodeVersion exScanned))"
    using h by simp_all
  moreover have "\<not> sorted (map lastUpdated [encodeVersion exScanned, encodeVersion exScannedSix])"
    unfolding k by simp
  ultimately show ?thesis
    using Check_two c(3) qualifying_two k(1) h by simp
qed

section \<open>Properties of the resolver\<close>

subsection \<open>Captures\<close>

lemma assignLoop_distinct:
  "distinct (map fst matches) \<Longrightarrow> distinct (map fst (assignLoop params matches))"
  by (induction params matches rule: assignLoop.induct) (simp_all add: distinct_update)

lemma assignLoop_map_of:
  "distinct (map fst params) \<Longrightarrow>
   map_of (assignLoop params matches) = map_of matches ++ map_of params"
proof (induction params matches rule: assignLoop.induct)
  case (1 matches)
  then show ?case by simp
next
  case (2 k v kvs matches)
  then have k: "k \<notin> dom (map_of kvs)"
    by (simp add: dom_map_of_conv_image_fst)
  from 2 have "map_of (assignLoop kvs (AList.update k v matches)) =
      map_of (AList.update k v matches) ++ map_of kvs" by simp
  also have "\<dots> = (map_of matches ++ map_of kvs)(k \<mapsto> v)"
    by (simp add: update_conv' map_add_upd_left [OF k])
  finally show ?case
    by (auto simp add: map_add_def fun_eq_iff)
qed

lemma paramsLoop_distinct:
  "paramsLoop i names match paramsMap = Inr out \<Longrightarrow> distinct (map fst paramsMap) \<Longrightarrow>
   distinct (map fst out)"
  by (induction i names match paramsMap rule: paramsLoop.induct)
     (auto simp add: distinct_update split: if_splits)

lemma getParams_distinct: "getParams re regEx body = Inr params \<Longrightarrow> distinct (map fst params)"
  by (auto simp add: getParams_def Let_def split: option.splits dest: paramsLoop_distinct)

lemma matchesLoop_distinct:
  "matchesLoop re regex body matches = Inr out \<Longrightarrow> distinct (map fst matches) \<Longrightarrow>
   distinct (map fst out)"
  by (induction regex arbitrary: matches) (auto simp add: assignLoop_distinct split: sum.splits)

lemma matchesLoop_untouched:
  "matchesLoop re regex body matches = Inr out \<Longrightarrow>
   \<forall>r\<in>set regex. \<forall>params. getParams re r body = Inr params \<longrightarrow> map_of params k = None \<Longrightarrow>
   map_of out k = map_of matches k"
proof (induction regex arbitrary: matches)
  case Nil
  then show ?case by simp
next
  case (Cons r regex)
  from Cons.prems(1) obtain params where p: "getParams re r body = Inr params"
    and l: "matchesLoop re regex body (assignLoop params matches) = Inr out"
    by (auto split: sum.splits)
  from Cons.prems(2) p have n: "map_of params k = None" by simp
  have "map_of out k = map_of (assignLoop params matches) k"
    using l Cons.prems(2) by (intro Cons.IH) simp_all
  also have "\<dots> = map_of matches k"
    using n by (simp add: assignLoop_map_of [OF getParams_distinct [OF p]] map_add_def)
  finally show ?case .
qed

lemma matchesLoop_later_wins:
  assumes "matchesLoop re regex body matches = Inr out"
    and "j < length regex"
    and "getParams re (regex ! j) body = Inr params"
    and "map_of params k = Some v"
    and "\<forall>j'. j < j' \<and> j' < length regex \<longrightarrow>
           (\<forall>params'. getParams re (regex ! j') body = Inr params' \<longrightarrow> map_of params' k = None)"
  shows "map_of out k = Some v"
  using assms
proof (induction regex arbitrary: matches j)
  case Nil
  then show ?case by simp
next
  case (Cons r regex)
  from Cons.prems(1) obtain params0 where p: "getParams re r body = Inr params0"
    and l: "matchesLoop re regex body (assignLoop params0 matches) = Inr out"
    by (auto split: sum.splits)
  show ?case
  proof (cases j)
    case 0
    with Cons.prems(3) p have "params0 = params" by simp
    moreover have "map_of (assignLoop params0 matches) = map_of matches ++ map_of params0"
      by (rule assignLoop_map_of [OF getParams_distinct [OF p]])
    ultimately have "map_of (assignLoop params0 matches) k = Some v"
      using Cons.prems(4) by (simp add: map_add_Some_iff)
    moreover have "\<forall>r'\<in>set regex. \<forall>params'. getParams re r' body = Inr params' \<longrightarrow> map_of params' k = None"
    proof (intro ballI allI impI)
      fix r' params' assume "r' \<in> set regex" and g: "getParams re r' body = Inr params'"
      then obtain i where "i < length regex" "regex ! i = r'" by (auto simp add: in_set_conv_nth)
      with Cons.prems(5) [rule_format, of "Suc i" params'] 0 g show "map_of params' k = None" by simp
    qed
    ultimately show ?thesis
      using matchesLoop_untouched [OF l] by simp
  next
    case (Suc j0)
    have "map_of out k = Some v"
    proof (rule Cons.IH [OF l, of j0])
      show "j0 < length regex" using Cons.prems(2) Suc by simp
      show "getParams re (regex ! j0) body = Inr params" using Cons.prems(3) Suc by simp
      show "map_of params k = Some v" by (rule Cons.prems(4))
      show "\<forall>j'. j0 < j' \<and> j' < length regex \<longrightarrow>
             (\<forall>params'. getParams re (regex ! j') body = Inr params' \<longrightarrow> map_of params' k = None)"
      proof (intro allI impI)
        fix j' params' assume "j0 < j' \<and> j' < length regex" and "getParams re (regex ! j') body = Inr params'"
        with Cons.prems(5) [rule_format, of "Suc j'" params'] Suc show "map_of params' k = None" by simp
      qed
    qed
    then show ?thesis .
  qed
qed

subsection \<open>Metadata\<close>

lemma matchFields_set:
  "set (matchFields serializedMetadata i matches) =
   set serializedMetadata \<union> {captureField (i + 1) k v | k v. (k, v) \<in> set matches}"
  by (induction serializedMetadata i matches rule: matchFields.induct)
     (auto simp add: Add_def captureField_def)

lemma metadataLoop_set:
  "set (metadataLoop serializedMetadata i messages) =
   set serializedMetadata \<union>
   {captureField (i + int j + 1) k v | j k v. j < length messages \<and> (k, v) \<in> set (Matches (messages ! j))}"
proof (induction messages arbitrary: serializedMetadata i)
  case Nil
  then show ?case by simp
next
  case (Cons m messages)
  have "{captureField (i + int j + 1) k v | j k v.
           j < length (m # messages) \<and> (k, v) \<in> set (Matches ((m # messages) ! j))} =
        {captureField (i + 1) k v | k v. (k, v) \<in> set (Matches m)} \<union>
        {captureField (i + 1 + int j + 1) k v | j k v.
           j < length messages \<and> (k, v) \<in> set (Matches (messages ! j))}"
    (is "?L = ?A \<union> ?B")
  proof (intro equalityI subsetI)
    fix x assume "x \<in> ?L"
    then obtain j k v where x: "x = captureField (i + int j + 1) k v" "j < length (m # messages)"
      "(k, v) \<in> set (Matches ((m # messages) ! j))" by blast
    show "x \<in> ?A \<union> ?B"
    proof (cases j)
      case 0
      with x show ?thesis by auto
    next
      case (Suc j0)
      with x have "x = captureField (i + 1 + int j0 + 1) k v" "j0 < length messages"
        "(k, v) \<in> set (Matches (messages ! j0))" by (simp_all add: algebra_simps)
      then show ?thesis by blast
    qed
  next
    fix x assume "x \<in> ?A \<union> ?B"
    then show "x \<in> ?L"
    proof
      assume "x \<in> ?A"
      then obtain k v where "x = captureField (i + int 0 + 1) k v" "(k, v) \<in> set (Matches ((m # messages) ! 0))"
        by auto
      then show ?thesis by (intro CollectI exI [of _ 0] exI [of _ k] exI [of _ v]) simp
    next
      assume "x \<in> ?B"
      then obtain j k v where "x = captureField (i + int (Suc j) + 1) k v" "Suc j < length (m # messages)"
        "(k, v) \<in> set (Matches ((m # messages) ! Suc j))" by (auto simp add: algebra_simps)
      then show ?thesis by blast
    qed
  qed
  then show ?case
    by (simp add: Cons.IH matchFields_set Un_assoc)
qed

subsection \<open>The concrete run of the resolver\<close>

lemma exVersion_texts:
  "Unmarshal_Responses (ApprovedBy exVersion) = Inr [exResponse]"
  "Unmarshal_Responses (ReviewedBy exVersion) = Inr [exResponse]"
proof -
  have "list_all asciiResponse [exResponse]"
    by (simp add: asciiResponse_def ascii_def exResponse_def)
  then have "Unmarshal_Responses (Marshal_Responses [exResponse]) = Inr [exResponse]"
    by (rule Unmarshal_Marshal)
  then show "Unmarshal_Responses (ApprovedBy exVersion) = Inr [exResponse]"
    "Unmarshal_Responses (ReviewedBy exVersion) = Inr [exResponse]"
    by (simp_all add: exVersion_def exScanned_def)
qed

lemma ParseInt_examples: "ParseInt ''5'' = 5" "ParseInt ''101'' = 101" "ParseInt [] = 0"
  by (simp_all add: ParseInt_def isDigit_def digitsValue_def)

lemma getParams_named:
  "getParams exRegexp ''Approved-by: (?P<approved_by>.*)'' ''Approved-by: alice'' = Inr [(''approved_by'', ''alice'')]"
  by (simp add: getParams_def exRegexp_def exFind_def eval_nat_numeral)

lemma getParams_unnamed_eval:
  "getParams exRegexp ''Approved-by: (.*)'' ''Approved-by: alice'' = Inr [([], ''alice'')]"
  by (simp add: getParams_def exRegexp_def exFind_def eval_nat_numeral)

lemma messagesLoop_example:
  "messagesLoop exRegexp exClient path 5 [''Approved-by: (?P<approved_by>.*)''] kind 0 [exResponse] ([], 0)
     = Inr ([exMessage [(''approved_by'', ''alice'')]], 1)"
  "messagesLoop exRegexp exClient path 5 [''Approved-by: (.*)''] kind 0 [exResponse] ([], 0)
     = Inr ([exMessage [([], ''alice'')]], 1)"
  "messagesLoop exRegexp exClient path 5 [] kind 0 [exResponse] ([], 0)
     = Inr ([exMessage []], 1)"
  by (simp_all add: exResponse_def ParseInt_examples parseComment_def exClient_def exComment_def
      exUser_def getParams_named getParams_unnamed_eval saveMessage_def exMessage_def)

subsection \<open>The working copy\<close>

lemma download_skipped:
  "SkipDownload (in_Params req) \<Longrightarrow> download w tr path req pull = (tr, None)"
  by (simp add: download_def)

lemma download_invalid_tool:
  assumes "IntegrationTool (in_Params req) \<notin> {''rebase'', [], ''merge'', ''checkout''}"
    and "\<not> SkipDownload (in_Params req)"
  shows "\<exists>tr' err n. download w tr path req pull = (tr', Some err) \<and>
           mutations tr' = mutations tr @
             take n [Init (Branch_Ref (Pull_Base pull)),
                     Pull (Branch_GitURL (Pull_Base pull)) (Branch_Ref (Pull_Base pull))
                       (GitDepth (in_Params req)) (Submodules (in_Params req)) (FetchTags (in_Params req)),
                     Fetch (Branch_GitURL (Pull_Base pull)) (Pull_Number pull)
                       (GitDepth (in_Params req)) (Submodules (in_Params req))]"
proof -
  let ?ms = "[Init (Branch_Ref (Pull_Base pull)),
              Pull (Branch_GitURL (Pull_Base pull)) (Branch_Ref (Pull_Base pull))
                (GitDepth (in_Params req)) (Submodules (in_Params req)) (FetchTags (in_Params req)),
              Fetch (Branch_GitURL (Pull_Base pull)) (Pull_Number pull)
                (GitDepth (in_Params req)) (Submodules (in_Params req))]"
  have t: "take 0 ?ms = []" "take 1 ?ms = [?ms ! 0]" "take 2 ?ms = [?ms ! 0, ?ms ! 1]" "take 3 ?ms = ?ms"
    by (simp_all add: eval_nat_numeral)
  obtain tr' res where d: "download w tr path req pull = (tr', res)"
    by (cases "download w tr path req pull")
  have "res \<noteq> None \<and> (mutations tr' = mutations tr @ take 0 ?ms \<or> mutations tr' = mutations tr @ take 1 ?ms \<or>
          mutations tr' = mutations tr @ take 2 ?ms \<or> mutations tr' = mutations tr @ take 3 ?ms)"
    using d assms unfolding t
    by (auto simp add: download_def call_def Let_def mutations_def isMutation_def
        split: option.splits if_splits)
  with d show ?thesis by blast
qed

lemma In_invalid_tool:
  assumes "IntegrationTool (in_Params req) \<notin> {''rebase'', [], ''merge'', ''checkout''}"
    and "\<not> SkipDownload (in_Params req)"
  shows "snd (In re api w outputDir req) \<noteq> Inr resp"
proof -
  have "download w tr path (req\<lparr>in_Version := v\<rparr>) pull \<noteq> (tr', None)" for tr path v pull tr'
    using download_invalid_tool [of "req\<lparr>in_Version := v\<rparr>" w tr path pull] assms by auto
  then show ?thesis
    by (auto simp add: In_def Let_def split: sum.splits prod.splits option.splits)
qed

lemma example_facts:
  "PrID exVersion = ''5''"
  "GetPullRequest exClient 5 = Inr exPull"
  by (simp_all add: exVersion_def exScanned_def exClient_def)

lemmas In_example_simps =
  In_def Let_def exInRequest_def exParams_def NewGithubClient_def exApi_def example_facts
  ParseInt_examples call_def exWorld_def exJoin_def exVersion_texts exSource_def messagesLoop_example
  writeOutput_def serializeStruct_InMetadata_def Add_def download_def exPull_def exMessage_def

lemma In_squash:
  "snd (In exRegexp exApi exWorld ''out'' squashRequest) =
     Inl (Error ''invalid integration tool specified: squash'')"
  "mutations (fst (In exRegexp exApi exWorld ''out'' squashRequest)) =
     [Init ''main'', Pull ''git://base'' ''main'' 1 False False, Fetch ''git://base'' 5 1 False]"
  by (simp_all add: In_example_simps squashRequest_def mutations_def isMutation_def
      del: messagesLoop.simps)

lemma In_unnamed:
  "snd (In exRegexp exApi exWorld ''out'' unnamedRequest) =
     Inr \<lparr>out_Version = exVersion\<lparr>approvedBy := [exResponse], reviewedBy := [exResponse]\<rparr>,
          out_Metadata =
            [\<lparr>Name = ''pr_id'', Value = ''5''\<rparr>,
             \<lparr>Name = ''pr_head_ref'', Value = ''feature''\<rparr>,
             \<lparr>Name = ''pr_head_sha'', Value = ''abc''\<rparr>,
             \<lparr>Name = ''pr_base_ref'', Value = ''main''\<rparr>,
             \<lparr>Name = ''pr_base_sha'', Value = ''def''\<rparr>,
             \<lparr>Name = ''total_approvals'', Value = ''1''\<rparr>,
             \<lparr>Name = ''total_reviews'', Value = ''1''\<rparr>,
             \<lparr>Name = ''_1'', Value = ''alice''\<rparr>]\<rparr>"
  by (simp add: In_example_simps unnamedRequest_def exMessage_def FormatInt_def natStr.simps
      digitChar_def del: messagesLoop.simps)

lemma In_named:
  "snd (In exRegexp exApi exWorld ''out'' exInRequest) =
     Inr \<lparr>out_Version = exVersion\<lparr>approvedBy := [exResponse], reviewedBy := [exResponse]\<rparr>,
          out_Metadata =
            [\<lparr>Name = ''pr_id'', Value = ''5''\<rparr>,
             \<lparr>Name = ''pr_head_ref'', Value = ''feature''\<rparr>,
             \<lparr>Name = ''pr_head_sha'', Value = ''abc''\<rparr>,
             \<lparr>Name = ''pr_base_ref'', Value = ''main''\<rparr>,
             \<lparr>Name = ''pr_base_sha'', Value = ''def''\<rparr>,
             \<lparr>Name = ''total_approvals'', Value = ''1''\<rparr>,
             \<lparr>Name = ''total_reviews'', Value = ''1''\<rparr>,
             \<lparr>Name = ''approved_by_1'', Value = ''alice''\<rparr>]\<rparr>"
  by (simp add: In_example_simps exMessage_def FormatInt_def natStr.simps digitChar_def
      del: messagesLoop.simps)

lemma In_success:
  assumes "In re api w outputDir req = (tr, Inr resp)"
  shows "\<exists>gh approvals am na reviews rm nr meta.
           NewGithubClient api (in_Source req) = Inr gh \<and>
           Unmarshal_Responses (ApprovedBy (in_Version req)) = Inr approvals \<and>
           messagesLoop re gh (Join w [outputDir]) (ParseInt (PrID (in_Version req)))
             (ApproverComments (in_Source req)) ''approval'' 0 approvals ([], 0) = Inr (am, na) \<and>
           Unmarshal_Responses (ReviewedBy (in_Version req)) = Inr reviews \<and>
           messagesLoop re gh (Join w [outputDir]) (ParseInt (PrID (in_Version req)))
             (ReviewerComments (in_Source req)) ''review'' 0 reviews ([], 0) = Inr (rm, nr) \<and>
           out_Metadata resp = metadataLoop (metadataLoop (serializeStruct_InMetadata meta) 0 am) 0 rm"
  using assms
  by (auto simp add: In_def Let_def split: sum.splits prod.splits option.splits)

lemma capture_fields_and_merge_core:
  "set (metadataLoop serializedMetadata 0 messages) =
     set serializedMetadata \<union>
     {captureField (int j + 1) k v | j k v. j < length messages \<and> (k, v) \<in> set (Matches (messages ! j))} \<and>
   (In re api w outputDir req = (tr, Inr resp) \<longrightarrow>
      (\<exists>gh approvals am na reviews rm nr meta.
         NewGithubClient api (in_Source req) = Inr gh \<and>
         Unmarshal_Responses (ApprovedBy (in_Version req)) = Inr approvals \<and>
         messagesLoop re gh (Join w [outputDir]) (ParseInt (PrID (in_Version req)))
           (ApproverComments (in_Source req)) ''approval'' 0 approvals ([], 0) = Inr (am, na) \<and>
         Unmarshal_Responses (ReviewedBy (in_Version req)) = Inr reviews \<and>
         messagesLoop re gh (Join w [outputDir]) (ParseInt (PrID (in_Version req)))
           (ReviewerComments (in_Source req)) ''review'' 0 reviews ([], 0) = Inr (rm, nr) \<and>
         out_Metadata resp = metadataLoop (metadataLoop (serializeStruct_InMetadata meta) 0 am) 0 rm)) \<and>
   (parseReview re gh prID reviewID regex = Inr message \<and>
    GetPullRequestReview gh prID reviewID = Inr review \<and>
    i < length regex \<and> getParams re (regex ! i) (Review_Body review) = Inr params \<and>
    map_of params name = Some val \<and>
    (\<forall>i'. i < i' \<and> i' < length regex \<longrightarrow>
       (\<forall>params'. getParams re (regex ! i') (Review_Body review) = Inr params' \<longrightarrow>
          map_of params' name = None)) \<longrightarrow>
    map_of (Matches message) name = Some val \<and> distinct (map fst (Matches message))) \<and>
   (parseComment re gh commentID regex = Inr message' \<and>
    GetPullRequestComment gh commentID = Inr comment \<and>
    i < length regex \<and> getParams re (regex ! i) (Comment_Body comment) = Inr params \<and>
    map_of params name = Some val \<and>
    (\<forall>i'. i < i' \<and> i' < length regex \<longrightarrow>
       (\<forall>params'. getParams re (regex ! i') (Comment_Body comment) = Inr params' \<longrightarrow>
          map_of params' name = None)) \<longrightarrow>
    map_of (Matches message') name = Some val \<and> distinct (map fst (Matches message')))"
proof (intro conjI impI)
  show "set (metadataLoop serializedMetadata 0 messages) =
     set serializedMetadata \<union>
     {captureField (int j + 1) k v | j k v. j < length messages \<and> (k, v) \<in> set (Matches (messages ! j))}"
    using metadataLoop_set [of serializedMetadata 0 messages] by simp
next
  assume "In re api w outputDir req = (tr, Inr resp)"
  then show "\<exists>gh approvals am na reviews rm nr meta.
         NewGithubClient api (in_Source req) = Inr gh \<and>
         Unmarshal_Responses (ApprovedBy (in_Version req)) = Inr approvals \<and>
         messagesLoop re gh (Join w [outputDir]) (ParseInt (PrID (in_Version req)))
           (ApproverComments (in_Source req)) ''approval'' 0 approvals ([], 0) = Inr (am, na) \<and>
         Unmarshal_Responses (ReviewedBy (in_Version req)) = Inr reviews \<and>
         messagesLoop re gh (Join w [outputDir]) (ParseInt (PrID (in_Version req)))
           (ReviewerComments (in_Source req)) ''review'' 0 reviews ([], 0) = Inr (rm, nr) \<and>
         out_Metadata resp = metadataLoop (metadataLoop (serializeStruct_InMetadata meta) 0 am) 0 rm"
    by (rule In_success)
next
  assume a: "parseReview re gh prID reviewID regex = Inr message \<and>
    GetPullRequestReview gh prID reviewID = Inr review \<and>
    i < length regex \<and> getParams re (regex ! i) (Review_Body review) = Inr params \<and>
    map_of params name = Some val \<and>
    (\<forall>i'. i < i' \<and> i' < length regex \<longrightarrow>
       (\<forall>params'. getParams re (regex ! i') (Review_Body review) = Inr params' \<longrightarrow>
          map_of params' name = None))"
  then have l: "matchesLoop re regex (Review_Body review) [] = Inr (Matches message)"
    by (auto simp add: parseReview_def Let_def split: sum.splits)
  from a matchesLoop_later_wins [OF l, of i params name val]
  show "map_of (Matches message) name = Some val" by blast
  from matchesLoop_distinct [OF l] show "distinct (map fst (Matches message))" by simp
next
  assume a: "parseComment re gh commentID regex = Inr message' \<and>
    GetPullRequestComment gh commentID = Inr comment \<and>
    i < length regex \<and> getParams re (regex ! i) (Comment_Body comment) = Inr params \<and>
    map_of params name = Some val \<and>
    (\<forall>i'. i < i' \<and> i' < length regex \<longrightarrow>
       (\<forall>params'. getParams re (regex ! i') (Comment_Body comment) = Inr params' \<longrightarrow>
          map_of params' name = None))"
  then have l: "matchesLoop re regex (Comment_Body comment) [] = Inr (Matches message')"
    by (auto simp add: parseComment_def Let_def split: sum.splits)
  from a matchesLoop_later_wins [OF l, of i params name val]
  show "map_of (Matches message') name = Some val" by blast
  from matchesLoop_distinct [OF l] show "distinct (map fst (Matches message'))" by simp
qed

lemma matchesLoop_total:
  "\<forall>r\<in>set regex. \<exists>params. getParams re r body = Inr params \<Longrightarrow>
   \<exists>out. matchesLoop re regex body matches = Inr out"
proof (induction regex arbitrary: matches)
  case Nil
  then show ?case by simp
next
  case (Cons r regex)
  then obtain params where "getParams re r body = Inr params" by auto
  with Cons show ?case by simp
qed

lemma parseReview_total:
  assumes "GetPullRequestReview gh prID reviewID = Inr review"
    and "\<forall>r\<in>set regex. \<exists>params. getParams re r (Review_Body review) = Inr params"
  shows "\<exists>message. parseReview re gh prID reviewID regex = Inr message \<and>
           msg_ReviewID message = Review_ID review \<and> Body message = Review_Body review \<and>
           UserLogin message = User_Login (Review_User review) \<and>
           matchesLoop re regex (Review_Body review) [] = Inr (Matches message)"
proof -
  from matchesLoop_total [OF assms(2), of "[]"] obtain out
    where "matchesLoop re regex (Review_Body review) [] = Inr out" by blast
  with assms(1) show ?thesis
    by (simp add: parseReview_def)
qed

lemma parseComment_total:
  assumes "GetPullRequestComment gh commentID = Inr comment"
    and "\<forall>r\<in>set regex. \<exists>params. getParams re r (Comment_Body comment) = Inr params"
  shows "\<exists>message. parseComment re gh commentID regex = Inr message \<and>
           msg_CommentID message = Comment_ID comment \<and> Body message = Comment_Body comment \<and>
           UserLogin message = User_Login (Comment_User comment) \<and>
           matchesLoop re regex (Comment_Body comment) [] = Inr (Matches message)"
proof -
  from matchesLoop_total [OF assms(2), of "[]"] obtain out
    where "matchesLoop re regex (Comment_Body comment) [] = Inr out" by blast
  with assms(1) show ?thesis
    by (simp add: parseComment_def)
qed

lemma messagesLoop_result:
  "messagesLoop re gh path prID regex kind i responses (messages, counter) = Inr (out, counter') \<Longrightarrow>
   length out = length messages + length responses \<and>
   counter' = counter + int (length responses) \<and>
   take (length messages) out = messages \<and>
   (\<forall>j<length responses.
      (if 0 < ParseInt (ReviewID (responses ! j))
       then parseReview re gh prID (ParseInt (ReviewID (responses ! j))) regex
       else parseComment re gh (ParseInt (CommentID (responses ! j))) regex)
      = Inr (out ! (length messages + j)))"
proof (induction responses arbitrary: messages counter i)
  case Nil
  then show ?case by simp
next
  case (Cons response responses)
  let ?parse = "if 0 < ParseInt (ReviewID response)
       then parseReview re gh prID (ParseInt (ReviewID response)) regex
       else parseComment re gh (ParseInt (CommentID response)) regex"
  from Cons.prems obtain message where m: "?parse = Inr message"
    and l: "messagesLoop re gh path prID regex kind (i + 1) responses (messages @ [message], counter + 1)
              = Inr (out, counter')"
    by (auto simp add: Let_def saveMessage_def split: sum.splits if_splits)
  from Cons.IH [OF l] have ih: "length out = length messages + 1 + length responses"
    "counter' = counter + 1 + int (length responses)"
    "take (length messages + 1) out = messages @ [message]"
    "\<forall>j<length responses.
      (if 0 < ParseInt (ReviewID (responses ! j))
       then parseReview re gh prID (ParseInt (ReviewID (responses ! j))) regex
       else parseComment re gh (ParseInt (CommentID (responses ! j))) regex)
      = Inr (out ! (length messages + 1 + j))"
    by simp_all
  from ih(3) have t: "take (length messages) out = messages"
    by (metis append_eq_conv_conj length_take min.absorb2 take_take le_add1 butlast_snoc butlast_take
        add_diff_cancel_right' length_append_singleton)
  from ih(1,3) have n: "out ! length messages = message"
    by (metis nth_take lessI Suc_eq_plus1 nth_append_length)
  show ?case
  proof (intro conjI allI impI)
    show "length out = length messages + length (response # responses)" using ih(1) by simp
    show "counter' = counter + int (length (response # responses))" using ih(2) by simp
    show "take (length messages) out = messages" by (rule t)
    fix j assume "j < length (response # responses)"
    then show "(if 0 < ParseInt (ReviewID ((response # responses) ! j))
       then parseReview re gh prID (ParseInt (ReviewID ((response # responses) ! j))) regex
       else parseComment re gh (ParseInt (CommentID ((response # responses) ! j))) regex)
      = Inr (out ! (length messages + j))"
      using m n ih(4) by (cases j) (auto split: if_splits)
  qed
qed

lemma example_facts_six:
  "PrID exVersionSix = ''6''"
  "GetPullRequest exClientTwo 6 = Inr exPullSix"
  "GetPullRequestReview exClientTwo 6 202 = Inr exReviewSix"
  "ParseInt ''6'' = 6" "ParseInt ''202'' = 202"
  by (simp_all add: exVersionSix_def exScannedSix_def exClientTwo_def ParseInt_def isDigit_def
      digitsValue_def)

lemma exVersionSix_texts:
  "Unmarshal_Responses (ApprovedBy exVersionSix) = Inr [exResponseSix]"
  "Unmarshal_Responses (ReviewedBy exVersionSix) = Inr [exResponseSix]"
proof -
  have "list_all asciiResponse [exResponseSix]"
    by (simp add: asciiResponse_def ascii_def exResponseSix_def)
  then have "Unmarshal_Responses (Marshal_Responses [exResponseSix]) = Inr [exResponseSix]"
    by (rule Unmarshal_Marshal)
  then show "Unmarshal_Responses (ApprovedBy exVersionSix) = Inr [exResponseSix]"
    "Unmarshal_Responses (ReviewedBy exVersionSix) = Inr [exResponseSix]"
    by (simp_all add: exVersionSix_def exScannedSix_def)
qed

lemma getParams_letter:
  "getParams exRegexp ''Approved-by: (?P<approved_by>[a-z])'' ''Approved-by: alice'' = Inr [(''approved_by'', ''a'')]"
  by (simp add: getParams_def exRegexp_def exFindLetter_def eval_nat_numeral)

lemma parseReview_example:
  "parseReview exRegexp exClientTwo 6 202 [''Approved-by: (?P<approved_by>.*)'']
     = Inr (exReviewMessage [(''approved_by'', ''alice'')])"
  "parseReview exRegexp exClientTwo 6 202
     [''Approved-by: (?P<approved_by>.*)'', ''Approved-by: (?P<approved_by>[a-z])'']
     = Inr (exReviewMessage [(''approved_by'', ''a'')])"
  "parseReview exRegexp exClientTwo 6 202
     [''Approved-by: (?P<approved_by>[a-z])'', ''Approved-by: (?P<approved_by>.*)'']
     = Inr (exReviewMessage [(''approved_by'', ''alice'')])"
  "parseReview exRegexp exClientTwo 6 202 [] = Inr (exReviewMessage [])"
  by (simp_all add: parseReview_def example_facts_six exReviewSix_def exUser_def getParams_named
      getParams_letter exReviewMessage_def)

lemma messagesLoop_six:
  "messagesLoop exRegexp exClientTwo path 6 [''Approved-by: (?P<approved_by>.*)''] kind 0 [exResponseSix] ([], 0)
     = Inr ([exReviewMessage [(''approved_by'', ''alice'')]], 1)"
  "messagesLoop exRegexp exClientTwo path 6 [] kind 0 [exResponseSix] ([], 0)
     = Inr ([exReviewMessage []], 1)"
  by (simp_all add: exResponseSix_def example_facts_six parseReview_example saveMessage_def)

lemma In_six:
  "snd (In exRegexp exApiTwo exWorld ''out'' exInRequestSix) =
     Inr \<lparr>out_Version = exVersionSix\<lparr>approvedBy := [exResponseSix], reviewedBy := [exResponseSix]\<rparr>,
          out_Metadata =
            [\<lparr>Name = ''pr_id'', Value = ''6''\<rparr>,
             \<lparr>Name = ''pr_head_ref'', Value = ''feature''\<rparr>,
             \<lparr>Name = ''pr_head_sha'', Value = ''abc''\<rparr>,
             \<lparr>Name = ''pr_base_ref'', Value = ''main''\<rparr>,
             \<lparr>Name = ''pr_base_sha'', Value = ''def''\<rparr>,
             \<lparr>Name = ''total_approvals'', Value = ''1''\<rparr>,
             \<lparr>Name = ''total_reviews'', Value = ''1''\<rparr>,
             \<lparr>Name = ''approved_by_1'', Value = ''alice''\<rparr>]\<rparr>"
  by (simp add: In_def Let_def exInRequestSix_def exParams_def NewGithubClient_def exApiTwo_def
      example_facts_six call_def exWorld_def exJoin_def exVersionSix_texts exSourceTwo_def
      exSource_def messagesLoop_six writeOutput_def serializeStruct_InMetadata_def Add_def
      download_def exPull_def exPullSix_def exReviewMessage_def FormatInt_def natStr.simps
      digitChar_def del: messagesLoop.simps)

text \<open>
  C8: the captures of the message at position \<open>j\<close> of a list, counted from 0, are
  added to the metadata as the fields named by the capture, an underscore and
  \<open>j + 1\<close>, and nothing else is added; the metadata of a response is built so from
  the approvals and then from the reviews.  The captures of one message form one map
  with one value for each name, and a name captured by several patterns has the value
  of the last of them in the order of the configuration.  A review or a comment that
  the platform returns, with patterns that compile, does give a message with such a
  map, and the messages of a list are those of its responses, in their order.
\<close>

theorem capture_fields_and_merge:
  "(set (metadataLoop serializedMetadata 0 messages) =
     set serializedMetadata \<union>
     {captureField (int j + 1) k v | j k v. j < length messages \<and> (k, v) \<in> set (Matches (messages ! j))} \<and>
   (In re api w outputDir req = (tr, Inr resp) \<longrightarrow>
      (\<exists>gh approvals am na reviews rm nr meta.
         NewGithubClient api (in_Source req) = Inr gh \<and>
         Unmarshal_Responses (ApprovedBy (in_Version req)) = Inr approvals \<and>
         messagesLoop re gh (Join w [outputDir]) (ParseInt (PrID (in_Version req)))
           (ApproverComments (in_Source req)) ''approval'' 0 approvals ([], 0) = Inr (am, na) \<and>
         Unmarshal_Responses (ReviewedBy (in_Version req)) = Inr reviews \<and>
         messagesLoop re gh (Join w [outputDir]) (ParseInt (PrID (in_Version req)))
           (ReviewerComments (in_Source req)) ''review'' 0 reviews ([], 0) = Inr (rm, nr) \<and>
         out_Metadata resp = metadataLoop (metadataLoop (serializeStruct_InMetadata meta) 0 am) 0 rm)) \<and>
   (parseReview re gh prID reviewID regex = Inr message \<and>
    GetPullRequestReview gh prID reviewID = Inr review \<and>
    i < length regex \<and> getParams re (regex ! i) (Review_Body review) = Inr params \<and>
    map_of params name = Some val \<and>
    (\<forall>i'. i < i' \<and> i' < length regex \<longrightarrow>
       (\<forall>params'. getParams re (regex ! i') (Review_Body review) = Inr params' \<longrightarrow>
          map_of params' name = None)) \<longrightarrow>
    map_of (Matches message) name = Some val \<and> distinct (map fst (Matches message))) \<and>
   (parseComment re gh commentID regex = Inr message' \<and>
    GetPullRequestComment gh commentID = Inr comment \<and>
    i < length regex \<and> getParams re (regex ! i) (Comment_Body comment) = Inr params \<and>
    map_of params name = Some val \<and>
    (\<forall>i'. i < i' \<and> i' < length regex \<longrightarrow>
       (\<forall>params'. getParams re (regex ! i') (Comment_Body comment) = Inr params' \<longrightarrow>
          map_of params' name = None)) \<longrightarrow>
    map_of (Matches message') name = Some val \<and> distinct (map fst (Matches message')))) \<and>
   ((GetPullRequestReview gh prID reviewID = Inr review \<and>
     (\<forall>r\<in>set regex. \<exists>params'. getParams re r (Review_Body review) = Inr params') \<longrightarrow>
       (\<exists>made. parseReview re gh prID reviewID regex = Inr made \<and>
          msg_ReviewID made = Review_ID review \<and> Body made = Review_Body review \<and>
          UserLogin made = User_Login (Review_User review) \<and>
          matchesLoop re regex (Review_Body review) [] = Inr (Matches made))) \<and>
    (GetPullRequestComment gh commentID = Inr comment \<and>
     (\<forall>r\<in>set regex. \<exists>params'. getParams re r (Comment_Body comment) = Inr params') \<longrightarrow>
       (\<exists>made. parseComment re gh commentID regex = Inr made \<and>
          msg_CommentID made = Comment_ID comment \<and> Body made = Comment_Body comment \<and>
          UserLogin made = User_Login (Comment_User comment) \<and>
          matchesLoop re regex (Comment_Body comment) [] = Inr (Matches made))) \<and>
    (messagesLoop re gh path prID regex kind 0 responses ([], 0) = Inr (out, counter) \<longrightarrow>
       length out = length responses \<and> counter = int (length responses) \<and>
       (\<forall>j<length responses.
          (if 0 < ParseInt (ReviewID (responses ! j))
           then parseReview re gh prID (ParseInt (ReviewID (responses ! j))) regex
           else parseComment re gh (ParseInt (CommentID (responses ! j))) regex)
          = Inr (out ! j))))"
proof -
  have s: "set (metadataLoop serializedMetadata 0 messages) =
     set serializedMetadata \<union>
     {captureField (int j + 1) k v | j k v. j < length messages \<and> (k, v) \<in> set (Matches (messages ! j))} \<and>
   (In re api w outputDir req = (tr, Inr resp) \<longrightarrow>
      (\<exists>gh approvals am na reviews rm nr meta.
         NewGithubClient api (in_Source req) = Inr gh \<and>
         Unmarshal_Responses (ApprovedBy (in_Version req)) = Inr approvals \<and>
         messagesLoop re gh (Join w [outputDir]) (ParseInt (PrID (in_Version req)))
           (ApproverComments (in_Source req)) ''approval'' 0 approvals ([], 0) = Inr (am, na) \<and>
         Unmarshal_Responses (ReviewedBy (in_Version req)) = Inr reviews \<and>
         messagesLoop re gh (Join w [outputDir]) (ParseInt (PrID (in_Version req)))
           (ReviewerComments (in_Source req)) ''review'' 0 reviews ([], 0) = Inr (rm, nr) \<and>
         out_Metadata resp = metadataLoop (metadataLoop (serializeStruct_InMetadata meta) 0 am) 0 rm)) \<and>
   (parseReview re gh prID reviewID regex = Inr message \<and>
    GetPullRequestReview gh prID reviewID = Inr review \<and>
    i < length regex \<and> getParams re (regex ! i) (Review_Body review) = Inr params \<and>
    map_of params name = Some val \<and>
    (\<forall>i'. i < i' \<and> i' < length regex \<longrightarrow>
       (\<forall>params'. getParams re (regex ! i') (Review_Body review) = Inr params' \<longrightarrow>
          map_of params' name = None)) \<longrightarrow>
    map_of (Matches message) name = Some val \<and> distinct (map fst (Matches message))) \<and>
   (parseComment re gh commentID regex = Inr message' \<and>
    GetPullRequestComment gh commentID = Inr comment \<and>
    i < length regex \<and> getParams re (regex ! i) (Comment_Body comment) = Inr params \<and>
    map_of params name = Some val \<and>
    (\<forall>i'. i < i' \<and> i' < length regex \<longrightarrow>
       (\<forall>params'. getParams re (regex ! i') (Comment_Body comment) = Inr params' \<longrightarrow>
          map_of params' name = None)) \<longrightarrow>
    map_of (Matches message') name = Some val \<and> distinct (map fst (Matches message')))"
    by (rule capture_fields_and_merge_core)
  have e1: "GetPullRequestReview gh prID reviewID = Inr review \<and>
     (\<forall>r\<in>set regex. \<exists>params'. getParams re r (Review_Body review) = Inr params') \<longrightarrow>
       (\<exists>made. parseReview re gh prID reviewID regex = Inr made \<and>
          msg_ReviewID made = Review_ID review \<and> Body made = Review_Body review \<and>
          UserLogin made = User_Login (Review_User review) \<and>
          matchesLoop re regex (Review_Body review) [] = Inr (Matches made))"
    using parseReview_total [of gh prID reviewID review regex re] by blast
  have e2: "GetPullRequestComment gh commentID = Inr comment \<and>
     (\<forall>r\<in>set regex. \<exists>params'. getParams re r (Comment_Body comment) = Inr params') \<longrightarrow>
       (\<exists>made. parseComment re gh commentID regex = Inr made \<and>
          msg_CommentID made = Comment_ID comment \<and> Body made = Comment_Body comment \<and>
          UserLogin made = User_Login (Comment_User comment) \<and>
          matchesLoop re regex (Comment_Body comment) [] = Inr (Matches made))"
    using parseComment_total [of gh commentID comment regex re] by blast
  have e3: "messagesLoop re gh path prID regex kind 0 responses ([], 0) = Inr (out, counter) \<longrightarrow>
       length out = length responses \<and> counter = int (length responses) \<and>
       (\<forall>j<length responses.
          (if 0 < ParseInt (ReviewID (responses ! j))
           then parseReview re gh prID (ParseInt (ReviewID (responses ! j))) regex
           else parseComment re gh (ParseInt (CommentID (responses ! j))) regex)
          = Inr (out ! j))"
    using messagesLoop_result [of re gh path prID regex kind 0 responses "[]" 0 out counter] by simp
  show ?thesis
    by (rule conjI, rule s, rule conjI, rule e1, rule conjI, rule e2, rule e3)
qed

theorem capture_fields_and_merge_witness:
  "captureField 1 ''approved_by'' ''alice''
     \<in> set (metadataLoop [] 0 [exReviewMessage [(''approved_by'', ''alice'')]]) \<and>
   \<lparr>Name = ''approved_by_1'', Value = ''alice''\<rparr>
     \<in> set (out_Metadata (projr (snd (In exRegexp exApi exWorld ''out'' exInRequest)))) \<and>
   \<lparr>Name = ''approved_by_1'', Value = ''alice''\<rparr>
     \<in> set (out_Metadata (projr (snd (In exRegexp exApiTwo exWorld ''out'' exInRequestSix)))) \<and>
   messagesLoop exRegexp exClientTwo ''out'' 6 [''Approved-by: (?P<approved_by>.*)''] ''approval'' 0
     [exResponseSix] ([], 0) = Inr ([exReviewMessage [(''approved_by'', ''alice'')]], 1) \<and>
   parseReview exRegexp exClientTwo 6 202 [''Approved-by: (?P<approved_by>.*)'']
     = Inr (exReviewMessage [(''approved_by'', ''alice'')]) \<and>
   parseReview exRegexp exClientTwo 6 202
     [''Approved-by: (?P<approved_by>.*)'', ''Approved-by: (?P<approved_by>[a-z])'']
     = Inr (exReviewMessage [(''approved_by'', ''a'')]) \<and>
   parseReview exRegexp exClientTwo 6 202
     [''Approved-by: (?P<approved_by>[a-z])'', ''Approved-by: (?P<approved_by>.*)'']
     = Inr (exReviewMessage [(''approved_by'', ''alice'')]) \<and>
   parseComment exRegexp exClient 101
     [''Approved-by: (?P<approved_by>.*)'', ''Approved-by: (?P<approved_by>[a-z])'']
     = Inr (exMessage [(''approved_by'', ''a'')]) \<and>
   parseComment exRegexp exClient 101
     [''Approved-by: (?P<approved_by>[a-z])'', ''Approved-by: (?P<approved_by>.*)'']
     = Inr (exMessage [(''approved_by'', ''alice'')]) \<and>
   (\<exists>made. parseReview exRegexp exClientTwo 6 202 [''Approved-by: (?P<approved_by>.*)''] = Inr made \<and>
      msg_ReviewID made = Review_ID exReviewSix \<and> Body made = Review_Body exReviewSix) \<and>
   (\<exists>made. parseComment exRegexp exClient 101 [''Approved-by: (?P<approved_by>.*)''] = Inr made \<and>
      msg_CommentID made = Comment_ID exComment \<and> Body made = Comment_Body exComment) \<and>
   map_of (Matches (exReviewMessage [(''approved_by'', ''a'')])) ''approved_by'' = Some ''a'' \<and>
   map_of (Matches (exReviewMessage [(''approved_by'', ''alice'')])) ''approved_by'' = Some ''alice'' \<and>
   map_of (Matches (exMessage [(''approved_by'', ''a'')])) ''approved_by'' = Some ''a'' \<and>
   map_of (Matches (exMessage [(''approved_by'', ''alice'')])) ''approved_by'' = Some ''alice''"
proof -
  let ?all = "''Approved-by: (?P<approved_by>.*)''"
  let ?one = "''Approved-by: (?P<approved_by>[a-z])''"
  let ?body = "''Approved-by: alice''"
  note g1 = getParams_named
  note g2 = getParams_letter
  have c: "GetPullRequestComment exClient 101 = Inr exComment" "Comment_Body exComment = ?body"
    by (simp_all add: exClient_def exComment_def)
  have r: "GetPullRequestReview exClientTwo 6 202 = Inr exReviewSix" "Review_Body exReviewSix = ?body"
    by (simp_all add: example_facts_six exReviewSix_def)
  have p1: "parseComment exRegexp exClient 101 [?all, ?one] = Inr (exMessage [(''approved_by'', ''a'')])"
    by (simp add: parseComment_def c g1 g2 exMessage_def) (simp add: exComment_def exUser_def)
  have p2: "parseComment exRegexp exClient 101 [?one, ?all] = Inr (exMessage [(''approved_by'', ''alice'')])"
    by (simp add: parseComment_def c g1 g2 exMessage_def) (simp add: exComment_def exUser_def)
  note q = parseReview_example
  have run: "In exRegexp exApi exWorld ''out'' exInRequest =
      (fst (In exRegexp exApi exWorld ''out'' exInRequest),
       Inr (projr (snd (In exRegexp exApi exWorld ''out'' exInRequest))))"
    by (simp add: In_named prod_eq_iff)
  have run6: "In exRegexp exApiTwo exWorld ''out'' exInRequestSix =
      (fst (In exRegexp exApiTwo exWorld ''out'' exInRequestSix),
       Inr (projr (snd (In exRegexp exApiTwo exWorld ''out'' exInRequestSix))))"
    by (simp add: In_six prod_eq_iff)
  note t = capture_fields_and_merge
  note t1 = t [where serializedMetadata = "[]" and
      messages = "[exReviewMessage [(''approved_by'', ''alice'')]]" and re = exRegexp and api = exApi and
      w = exWorld and outputDir = "''out''" and req = exInRequest and
      tr = "fst (In exRegexp exApi exWorld ''out'' exInRequest)" and
      resp = "projr (snd (In exRegexp exApi exWorld ''out'' exInRequest))" and
      gh = exClient and commentID = 101 and regex = "[?all, ?one]" and
      message' = "exMessage [(''approved_by'', ''a'')]" and comment = exComment and i = 1 and
      params = "[(''approved_by'', ''a'')]" and name = "''approved_by''" and val = "''a''"]
  note t2 = t [where serializedMetadata = "[]" and messages = "[]" and
      gh = exClient and re = exRegexp and commentID = 101 and regex = "[?one, ?all]" and
      message' = "exMessage [(''approved_by'', ''alice'')]" and comment = exComment and i = 1 and
      params = "[(''approved_by'', ''alice'')]" and name = "''approved_by''" and val = "''alice''"]
  note t3 = t [where serializedMetadata = "[]" and messages = "[]" and re = exRegexp and
      api = exApiTwo and w = exWorld and outputDir = "''out''" and req = exInRequestSix and
      tr = "fst (In exRegexp exApiTwo exWorld ''out'' exInRequestSix)" and
      resp = "projr (snd (In exRegexp exApiTwo exWorld ''out'' exInRequestSix))" and
      gh = exClientTwo and prID = 6 and reviewID = 202 and regex = "[?all, ?one]" and
      message = "exReviewMessage [(''approved_by'', ''a'')]" and review = exReviewSix and i = 1 and
      params = "[(''approved_by'', ''a'')]" and name = "''approved_by''" and val = "''a''"]
  note t4 = t [where serializedMetadata = "[]" and messages = "[]" and re = exRegexp and
      gh = exClientTwo and prID = 6 and reviewID = 202 and regex = "[?one, ?all]" and
      message = "exReviewMessage [(''approved_by'', ''alice'')]" and review = exReviewSix and i = 1 and
      params = "[(''approved_by'', ''alice'')]" and name = "''approved_by''" and val = "''alice''"]
  note t5 = t [where serializedMetadata = "[]" and messages = "[]" and re = exRegexp and
      gh = exClientTwo and prID = 6 and reviewID = 202 and regex = "[?all]" and review = exReviewSix and
      path = "''out''" and kind = "''approval''" and responses = "[exResponseSix]" and
      out = "[exReviewMessage [(''approved_by'', ''alice'')]]" and counter = 1]
  have a: "captureField 1 ''approved_by'' ''alice''
      \<in> set (metadataLoop [] 0 [exReviewMessage [(''approved_by'', ''alice'')]])"
    using t1 by (simp add: exReviewMessage_def)
  have b: "\<lparr>Name = ''approved_by_1'', Value = ''alice''\<rparr>
      \<in> set (out_Metadata (projr (snd (In exRegexp exApi exWorld ''out'' exInRequest))))"
    using t1 run by (simp add: In_named)
  have b6: "\<lparr>Name = ''approved_by_1'', Value = ''alice''\<rparr>
      \<in> set (out_Metadata (projr (snd (In exRegexp exApiTwo exWorld ''out'' exInRequestSix))))"
    using t3 run6 by (simp add: In_six)
  have d: "map_of (Matches (exMessage [(''approved_by'', ''a'')])) ''approved_by'' = Some ''a''"
    using t1 p1 c g2 by simp
  have e: "map_of (Matches (exMessage [(''approved_by'', ''alice'')])) ''approved_by'' = Some ''alice''"
    using t2 p2 c g1 by simp
  have d6: "map_of (Matches (exReviewMessage [(''approved_by'', ''a'')])) ''approved_by'' = Some ''a''"
    using t3 q(2) r g2 by simp
  have e6: "map_of (Matches (exReviewMessage [(''approved_by'', ''alice'')])) ''approved_by'' = Some ''alice''"
    using t4 q(3) r g1 by simp
  have compiled: "\<forall>r\<in>set [?all]. \<exists>params'. getParams exRegexp r (Review_Body exReviewSix) = Inr params'"
    by (simp add: r g1)
  note t5r = t5 [THEN conjunct2, THEN conjunct1, THEN mp, OF conjI [OF r(1) compiled]]
  have made: "\<exists>made. parseReview exRegexp exClientTwo 6 202 [?all] = Inr made \<and>
      msg_ReviewID made = Review_ID exReviewSix \<and> Body made = Review_Body exReviewSix"
    using t5r by blast
  have compiled': "\<forall>r\<in>set [?all]. \<exists>params'. getParams exRegexp r (Comment_Body exComment) = Inr params'"
    by (simp add: c g1)
  note t6 = t [where serializedMetadata = "[]" and messages = "[]" and re = exRegexp and
      gh = exClient and commentID = 101 and regex = "[?all]" and comment = exComment]
  note t6c = t6 [THEN conjunct2, THEN conjunct2, THEN conjunct1, THEN mp, OF conjI [OF c(1) compiled']]
  have made': "\<exists>made. parseComment exRegexp exClient 101 [?all] = Inr made \<and>
      msg_CommentID made = Comment_ID exComment \<and> Body made = Comment_Body exComment"
    using t6c by blast
  have l: "messagesLoop exRegexp exClientTwo ''out'' 6 [?all] ''approval'' 0 [exResponseSix] ([], 0)
      = Inr ([exReviewMessage [(''approved_by'', ''alice'')]], 1)"
    by (rule messagesLoop_six(1))
  have first: "parseReview exRegexp exClientTwo 6 202 [?all]
      = Inr (exReviewMessage [(''approved_by'', ''alice'')])"
    using t5 [THEN conjunct2, THEN conjunct2, THEN conjunct2, THEN mp, OF l]
    by (simp add: exResponseSix_def example_facts_six)
  from a b b6 l first q(2) q(3) p1 p2 d6 e6 d e made made' show ?thesis by simp
qed

lemma In_unnamed_map:
  "snd (In exRegexp exApi exFiles ''out'' unnamedMapRequest) =
     Inl (Error ''cannot write map: could not write: out/approval/1: could not create comment file: open out/approval/1: is a directory'')"
  by (simp add: In_def Let_def exInRequest_def exParams_def NewGithubClient_def exApi_def
      example_facts ParseInt_examples call_def exFiles_def exJoin_def exVersion_texts exSource_def
      messagesLoop_example writeOutput_def serializeStruct_InMetadata_def Add_def exPull_def
      exMessage_def unnamedRequest_def unnamedMapRequest_def writeMap_def
      serializeStruct_Message_def writeTextToFile_def FormatInt_def natStr.simps digitChar_def
      del: messagesLoop.simps)

text \<open>
  C4: the pattern \<open>Approved-by: (.*)\<close> has one group, which has no name.  On the body
  \<open>Approved-by: alice\<close> its text is stored in the capture map under the empty name, and
  the resolver returns the metadata field \<open>_1\<close> for it.  When the metadata is mapped
  to files as well, the file of this capture has the path of the directory of its
  message, and the run ends with the error of \<open>os.Create\<close> on a directory.
\<close>

theorem unnamed_group_is_captured:
  "getParams exRegexp ''Approved-by: (.*)'' ''Approved-by: alice'' = Inr [([], ''alice'')] \<and>
   snd (In exRegexp exApi exWorld ''out'' unnamedRequest) =
     Inr \<lparr>out_Version = exVersion\<lparr>approvedBy := [exResponse], reviewedBy := [exResponse]\<rparr>,
          out_Metadata =
            [\<lparr>Name = ''pr_id'', Value = ''5''\<rparr>,
             \<lparr>Name = ''pr_head_ref'', Value = ''feature''\<rparr>,
             \<lparr>Name = ''pr_head_sha'', Value = ''abc''\<rparr>,
             \<lparr>Name = ''pr_base_ref'', Value = ''main''\<rparr>,
             \<lparr>Name = ''pr_base_sha'', Value = ''def''\<rparr>,
             \<lparr>Name = ''total_approvals'', Value = ''1''\<rparr>,
             \<lparr>Name = ''total_reviews'', Value = ''1''\<rparr>,
             \<lparr>Name = ''_1'', Value = ''alice''\<rparr>]\<rparr> \<and>
   snd (In exRegexp exApi exFiles ''out'' unnamedMapRequest) =
     Inl (Error ''cannot write map: could not write: out/approval/1: could not create comment file: open out/approval/1: is a directory'')"
  using getParams_unnamed_eval In_unnamed In_unnamed_map by simp

lemma download_first_failure:
  assumes "IntegrationTool (in_Params req) \<notin> {''rebase'', [], ''merge'', ''checkout''}"
    and "\<not> SkipDownload (in_Params req)"
    and "k < 5"
    and "\<forall>i<k. perform w (tr @ take i (gitCalls w path req pull)) (gitCalls w path req pull ! i) = None"
    and "perform w (tr @ take k (gitCalls w path req pull)) (gitCalls w path req pull ! k) = Some err"
  shows "download w tr path req pull = (tr @ take (Suc k) (gitCalls w path req pull), Some (callError k err))"
proof -
  from assms(3) consider "k = 0" | "k = 1" | "k = 2" | "k = 3" | "k = 4" by linarith
  then show ?thesis
  proof cases
    case 1
    with assms(1,2,5) show ?thesis
      by (simp add: download_def call_def Let_def gitCalls_def callError_def)
  next
    case 2
    with assms(4) [rule_format, of 0] have "perform w (tr @ take 0 (gitCalls w path req pull)) (gitCalls w path req pull ! 0) = None"
      by simp
    with 2 assms(1,2,5) show ?thesis
      by (simp add: download_def call_def Let_def gitCalls_def callError_def)
  next
    case 3
    with assms(4) [rule_format, of 0] assms(4) [rule_format, of 1] have "perform w (tr @ take 0 (gitCalls w path req pull)) (gitCalls w path req pull ! 0) = None"
      "perform w (tr @ take 1 (gitCalls w path req pull)) (gitCalls w path req pull ! 1) = None"
      by simp_all
    with 3 assms(1,2,5) show ?thesis
      by (simp add: download_def call_def Let_def gitCalls_def callError_def eval_nat_numeral)
  next
    case 4
    with assms(4) [rule_format, of 0] assms(4) [rule_format, of 1] assms(4) [rule_format, of 2] have "perform w (tr @ take 0 (gitCalls w path req pull)) (gitCalls w path req pull ! 0) = None"
      "perform w (tr @ take 1 (gitCalls w path req pull)) (gitCalls w path req pull ! 1) = None"
      "perform w (tr @ take 2 (gitCalls w path req pull)) (gitCalls w path req pull ! 2) = None"
      by simp_all
    with 4 assms(1,2,5) show ?thesis
      by (simp add: download_def call_def Let_def gitCalls_def callError_def eval_nat_numeral)
  next
    case 5
    with assms(4) [rule_format, of 0] assms(4) [rule_format, of 1] assms(4) [rule_format, of 2]
      assms(4) [rule_format, of 3] have "perform w (tr @ take 0 (gitCalls w path req pull)) (gitCalls w path req pull ! 0) = None"
      "perform w (tr @ take 1 (gitCalls w path req pull)) (gitCalls w path req pull ! 1) = None"
      "perform w (tr @ take 2 (gitCalls w path req pull)) (gitCalls w path req pull ! 2) = None"
      "perform w (tr @ take 3 (gitCalls w path req pull)) (gitCalls w path req pull ! 3) = None"
      by simp_all
    with 5 assms(1,2,5) show ?thesis
      by (simp add: download_def call_def Let_def gitCalls_def callError_def eval_nat_numeral)
  qed
qed

lemma download_no_call_fails:
  assumes "IntegrationTool (in_Params req) \<notin> {''rebase'', [], ''merge'', ''checkout''}"
    and "\<not> SkipDownload (in_Params req)"
    and "\<forall>i<5. perform w (tr @ take i (gitCalls w path req pull)) (gitCalls w path req pull ! i) = None"
  shows "download w tr path req pull =
     (tr @ gitCalls w path req pull,
      Some (Error (''invalid integration tool specified: '' @ IntegrationTool (in_Params req))))"
proof -
  from assms(3) [rule_format, of 0] assms(3) [rule_format, of 1] assms(3) [rule_format, of 2]
    assms(3) [rule_format, of 3] assms(3) [rule_format, of 4]
  have "perform w (tr @ take 0 (gitCalls w path req pull)) (gitCalls w path req pull ! 0) = None"
      "perform w (tr @ take 1 (gitCalls w path req pull)) (gitCalls w path req pull ! 1) = None"
      "perform w (tr @ take 2 (gitCalls w path req pull)) (gitCalls w path req pull ! 2) = None"
      "perform w (tr @ take 3 (gitCalls w path req pull)) (gitCalls w path req pull ! 3) = None"
      "perform w (tr @ take 4 (gitCalls w path req pull)) (gitCalls w path req pull ! 4) = None"
    by simp_all
  with assms(1,2) show ?thesis
    by (simp add: download_def call_def Let_def gitCalls_def eval_nat_numeral)
qed

lemma download_version [simp]:
  "download w tr path (req\<lparr>in_Version := v\<rparr>) pull = download w tr path req pull"
  by (simp add: download_def Let_def cong: prod.case_cong option.case_cong if_cong)

lemma In_ends_with_download:
  assumes "NewGithubClient api (in_Source req) = Inr gh"
    and "GetPullRequest gh (ParseInt (PrID (in_Version req))) = Inr pull"
    and "perform w [] (MkdirAll (Join w [outputDir])) = None"
    and "Unmarshal_Responses (ApprovedBy (in_Version req)) = Inr approvals"
    and "messagesLoop re gh (Join w [outputDir]) (ParseInt (PrID (in_Version req)))
           (ApproverComments (in_Source req)) ''approval'' 0 approvals ([], 0) = Inr (am, na)"
    and "Unmarshal_Responses (ReviewedBy (in_Version req)) = Inr reviews"
    and "messagesLoop re gh (Join w [outputDir]) (ParseInt (PrID (in_Version req)))
           (ReviewerComments (in_Source req)) ''review'' 0 reviews ([], 0) = Inr (rm, nr)"
    and "writeOutput w [MkdirAll (Join w [outputDir])] (Join w [outputDir])
           (req\<lparr>in_Version := (in_Version req)\<lparr>approvedBy := approvals, reviewedBy := reviews\<rparr>\<rparr>)
           (metadataLoop (metadataLoop (serializeStruct_InMetadata
              \<lparr>PRID = ParseInt (PrID (in_Version req)),
               PRHeadRef = Branch_Ref (Pull_Head pull), PRHeadSHA = Branch_SHA (Pull_Head pull),
               PRBaseRef = Branch_Ref (Pull_Base pull), PRBaseSHA = Branch_SHA (Pull_Base pull),
               TotalApprovals = na, TotalReviews = nr\<rparr>) 0 am) 0 rm) am rm = (tr1, None)"
    and "download w tr1 (Join w [outputDir]) req pull = (tr2, Some err)"
  shows "In re api w outputDir req = (tr2, Inl err)"
  using assms by (simp add: In_def Let_def call_def)

lemma filesLoop_no_failure:
  "\<forall>tr file content. perform w tr (WriteFile file content) = None \<Longrightarrow>
   snd (filesLoop w tr path serializedMetadata) = None \<and>
   mutations (fst (filesLoop w tr path serializedMetadata)) = mutations tr"
  by (induction serializedMetadata arbitrary: tr)
     (simp_all add: call_def Let_def mutations_def isMutation_def)

lemma writeOutput_no_failure:
  assumes "\<forall>tr file content. perform w tr (WriteFile file content) = None"
    and "\<not> MapMetadata (in_Params req)"
  shows "snd (writeOutput w tr path req serializedMetadata am rm) = None \<and>
         mutations (fst (writeOutput w tr path req serializedMetadata am rm)) = mutations tr"
proof -
  let ?tr = "tr @ [WriteFile (Join w [path, ''version.json'']) (Marshal_Version (in_Version req)),
                   WriteFile (Join w [path, ''metadata.json'']) (Marshal_Metadata serializedMetadata)]"
  obtain tr' res where f: "filesLoop w ?tr path serializedMetadata = (tr', res)"
    by (cases "filesLoop w ?tr path serializedMetadata")
  with filesLoop_no_failure [OF assms(1), of ?tr path serializedMetadata]
  have "res = None" "mutations tr' = mutations tr"
    by (simp_all add: mutations_def isMutation_def)
  with f assms show ?thesis
    by (simp add: writeOutput_def call_def)
qed

text \<open>
  C1, as the code has it: with a strategy that is none of \<open>rebase\<close>, \<open>merge\<close>,
  \<open>checkout\<close> and the empty one, and the download not skipped, \<open>In\<close> never returns a
  response.  The download block makes its five calls in order, the directory, the git
  client, \<open>Init\<close>, \<open>Pull\<close> and \<open>Fetch\<close>: at the first of them that fails it stops with
  the error of that call, and when none fails it stops after \<open>Fetch\<close> with the error
  of the strategy; it never calls a rebase, merge or checkout.  An error of the download
  block is the error of \<open>In\<close>.  With the download skipped the strategy is not looked
  at.
\<close>

theorem invalid_tool_fails_after_working_copy_calls:
  "(IntegrationTool (in_Params req) \<notin> {''rebase'', [], ''merge'', ''checkout''} \<and>
    \<not> SkipDownload (in_Params req) \<longrightarrow>
      snd (In re api w outputDir req) \<noteq> Inr resp \<and>
      (k < 5 \<and>
       (\<forall>i<k. perform w (tr @ take i (gitCalls w path req pull)) (gitCalls w path req pull ! i) = None) \<and>
       perform w (tr @ take k (gitCalls w path req pull)) (gitCalls w path req pull ! k) = Some err \<longrightarrow>
         download w tr path req pull =
           (tr @ take (Suc k) (gitCalls w path req pull), Some (callError k err))) \<and>
      ((\<forall>i<5. perform w (tr @ take i (gitCalls w path req pull)) (gitCalls w path req pull ! i) = None) \<longrightarrow>
         download w tr path req pull =
           (tr @ gitCalls w path req pull,
            Some (Error (''invalid integration tool specified: '' @ IntegrationTool (in_Params req))))) \<and>
      (\<exists>tr' err' n. download w tr path req pull = (tr', Some err') \<and>
         mutations tr' = mutations tr @
           take n [Init (Branch_Ref (Pull_Base pull)),
                   Pull (Branch_GitURL (Pull_Base pull)) (Branch_Ref (Pull_Base pull))
                     (GitDepth (in_Params req)) (Submodules (in_Params req)) (FetchTags (in_Params req)),
                   Fetch (Branch_GitURL (Pull_Base pull)) (Pull_Number pull)
                     (GitDepth (in_Params req)) (Submodules (in_Params req))])) \<and>
   (NewGithubClient api (in_Source req) = Inr gh \<and>
    GetPullRequest gh (ParseInt (PrID (in_Version req))) = Inr pull \<and>
    perform w [] (MkdirAll (Join w [outputDir])) = None \<and>
    Unmarshal_Responses (ApprovedBy (in_Version req)) = Inr approvals \<and>
    messagesLoop re gh (Join w [outputDir]) (ParseInt (PrID (in_Version req)))
      (ApproverComments (in_Source req)) ''approval'' 0 approvals ([], 0) = Inr (am, na) \<and>
    Unmarshal_Responses (ReviewedBy (in_Version req)) = Inr reviews \<and>
    messagesLoop re gh (Join w [outputDir]) (ParseInt (PrID (in_Version req)))
      (ReviewerComments (in_Source req)) ''review'' 0 reviews ([], 0) = Inr (rm, nr) \<and>
    writeOutput w [MkdirAll (Join w [outputDir])] (Join w [outputDir])
      (req\<lparr>in_Version := (in_Version req)\<lparr>approvedBy := approvals, reviewedBy := reviews\<rparr>\<rparr>)
      (metadataLoop (metadataLoop (serializeStruct_InMetadata
         \<lparr>PRID = ParseInt (PrID (in_Version req)),
          PRHeadRef = Branch_Ref (Pull_Head pull), PRHeadSHA = Branch_SHA (Pull_Head pull),
          PRBaseRef = Branch_Ref (Pull_Base pull), PRBaseSHA = Branch_SHA (Pull_Base pull),
          TotalApprovals = na, TotalReviews = nr\<rparr>) 0 am) 0 rm) am rm = (trw, None) \<and>
    download w trw (Join w [outputDir]) req pull = (trd, Some errd) \<longrightarrow>
      In re api w outputDir req = (trd, Inl errd)) \<and>
   (SkipDownload (in_Params req) \<longrightarrow> download w tr path req pull = (tr, None))"
  using In_invalid_tool [of req re api w outputDir resp]
    download_first_failure [of req k w tr path pull err]
    download_no_call_fails [of req w tr path pull]
    download_invalid_tool [of req w tr path pull]
    In_ends_with_download [of api req gh pull w outputDir approvals re am na reviews rm nr trw trd errd]
    download_skipped [of req w tr path pull]
  by blast

theorem invalid_tool_fails_after_working_copy_calls_witness:
  "IntegrationTool (in_Params squashRequest) \<notin> {''rebase'', [], ''merge'', ''checkout''} \<and>
   \<not> SkipDownload (in_Params squashRequest) \<and>
   download exWorld [] ''out'' squashRequest exPull =
     ([MkdirAll ''out/source'', NewGitClient ''token'' False False ''out/source'', Init ''main'',
       Pull ''git://base'' ''main'' 1 False False, Fetch ''git://base'' 5 1 False],
      Some (Error ''invalid integration tool specified: squash'')) \<and>
   download exPullFails [] ''out'' squashRequest exPull =
     ([MkdirAll ''out/source'', NewGitClient ''token'' False False ''out/source'', Init ''main'',
       Pull ''git://base'' ''main'' 1 False False],
      Some (Error ''network is unreachable'')) \<and>
   snd (In exRegexp exApi exPullFails ''out'' squashRequest) = Inl (Error ''network is unreachable'') \<and>
   mutations (fst (In exRegexp exApi exPullFails ''out'' squashRequest)) =
     [Init ''main'', Pull ''git://base'' ''main'' 1 False False] \<and>
   IntegrationTool (in_Params skipSquashRequest) = ''squash'' \<and>
   SkipDownload (in_Params skipSquashRequest) \<and>
   download exWorld [] ''out'' skipSquashRequest exPull = ([], None)"
proof -
  let ?calls = "[MkdirAll ''out/source'', NewGitClient ''token'' False False ''out/source'', Init ''main'',
       Pull ''git://base'' ''main'' 1 False False, Fetch ''git://base'' 5 1 False]"
  have calls: "gitCalls exWorld path squashRequest exPull = gitCalls exPullFails path squashRequest exPull"
    "gitCalls exPullFails ''out'' squashRequest exPull = ?calls" for path
    by (simp_all add: gitCalls_def Let_def exWorld_def exPullFails_def exJoin_def squashRequest_def
        exInRequest_def exParams_def exSource_def exPull_def)
  have h: "IntegrationTool (in_Params squashRequest) \<notin> {''rebase'', [], ''merge'', ''checkout''}"
    "\<not> SkipDownload (in_Params squashRequest)"
    "IntegrationTool (in_Params skipSquashRequest) = ''squash''"
    "SkipDownload (in_Params skipSquashRequest)"
    by (simp_all add: skipSquashRequest_def squashRequest_def exInRequest_def exParams_def)
  have pw: "perform exWorld tr e = None" for tr e
    by (simp add: exWorld_def)
  have pf: "perform exPullFails tr e =
      (case e of Pull u r d s t \<Rightarrow> Some ''network is unreachable'' | _ \<Rightarrow> None)" for tr e
    by (simp add: exPullFails_def)
  have ok: "\<forall>i<5. perform exWorld (tr @ take i (gitCalls exWorld ''out'' squashRequest exPull))
      (gitCalls exWorld ''out'' squashRequest exPull ! i) = None" for tr
    by (simp add: pw)
  have before: "\<forall>i<3. perform exPullFails (tr @ take i (gitCalls exPullFails ''out'' squashRequest exPull))
      (gitCalls exPullFails ''out'' squashRequest exPull ! i) = None" for tr
    by (simp add: calls pf eval_nat_numeral All_less_Suc)
  have pull: "perform exPullFails (tr @ take 3 (gitCalls exPullFails ''out'' squashRequest exPull))
      (gitCalls exPullFails ''out'' squashRequest exPull ! 3) = Some ''network is unreachable''" for tr
    by (simp add: calls pf eval_nat_numeral)
  note t = invalid_tool_fails_after_working_copy_calls
  have d1: "download exWorld [] ''out'' squashRequest exPull =
      (?calls, Some (Error ''invalid integration tool specified: squash''))"
    using t [where req = squashRequest and w = exWorld and tr = "[]" and path = "''out''" and
        pull = exPull] h ok [of "[]"]
    by (simp add: calls) (simp add: squashRequest_def exInRequest_def exParams_def)
  have d2: "download exPullFails tr ''out'' squashRequest exPull =
      (tr @ take 4 ?calls, Some (Error ''network is unreachable''))" for tr
    using t [where req = squashRequest and w = exPullFails and tr = tr and path = "''out''" and
        pull = exPull and k = 3 and err = "''network is unreachable''"] h before [of tr] pull [of tr]
    by (simp add: calls callError_def eval_nat_numeral)
  let ?req = "squashRequest\<lparr>in_Version := (in_Version squashRequest)\<lparr>approvedBy := [exResponse], reviewedBy := [exResponse]\<rparr>\<rparr>"
  let ?md = "metadataLoop (metadataLoop (serializeStruct_InMetadata
         \<lparr>PRID = ParseInt (PrID (in_Version squashRequest)),
          PRHeadRef = Branch_Ref (Pull_Head exPull), PRHeadSHA = Branch_SHA (Pull_Head exPull),
          PRBaseRef = Branch_Ref (Pull_Base exPull), PRBaseSHA = Branch_SHA (Pull_Base exPull),
          TotalApprovals = 1, TotalReviews = 1\<rparr>) 0 [exMessage [(''approved_by'', ''alice'')]]) 0 [exMessage []]"
  let ?out = "writeOutput exPullFails [MkdirAll (Join exPullFails [''out''])] (Join exPullFails [''out''])
       ?req ?md [exMessage [(''approved_by'', ''alice'')]] [exMessage []]"
  have w: "snd ?out = None \<and> mutations (fst ?out) = mutations [MkdirAll (Join exPullFails [''out''])]"
    by (rule writeOutput_no_failure)
       (simp_all add: pf squashRequest_def exInRequest_def exParams_def)
  then have w': "?out = (fst ?out, None)"
    by (simp add: prod_eq_iff)
  have j: "Join exPullFails [''out''] = ''out''"
    by (simp add: exPullFails_def exJoin_def)
  have facts: "NewGithubClient exApi (in_Source squashRequest) = Inr exClient"
    "GetPullRequest exClient (ParseInt (PrID (in_Version squashRequest))) = Inr exPull"
    "perform exPullFails [] (MkdirAll (Join exPullFails [''out''])) = None"
    "Unmarshal_Responses (ApprovedBy (in_Version squashRequest)) = Inr [exResponse]"
    "messagesLoop exRegexp exClient (Join exPullFails [''out'']) (ParseInt (PrID (in_Version squashRequest)))
       (ApproverComments (in_Source squashRequest)) ''approval'' 0 [exResponse] ([], 0)
       = Inr ([exMessage [(''approved_by'', ''alice'')]], 1)"
    "Unmarshal_Responses (ReviewedBy (in_Version squashRequest)) = Inr [exResponse]"
    "messagesLoop exRegexp exClient (Join exPullFails [''out'']) (ParseInt (PrID (in_Version squashRequest)))
       (ReviewerComments (in_Source squashRequest)) ''review'' 0 [exResponse] ([], 0)
       = Inr ([exMessage []], 1)"
    by (simp_all add: squashRequest_def exInRequest_def NewGithubClient_def exApi_def example_facts
        ParseInt_examples pf exVersion_texts exSource_def messagesLoop_example
        del: messagesLoop.simps)
  have run: "In exRegexp exApi exPullFails ''out'' squashRequest =
      (fst ?out @ take 4 ?calls, Inl (Error ''network is unreachable''))"
    using t [where req = squashRequest and api = exApi and gh = exClient and pull = exPull and
        w = exPullFails and outputDir = "''out''" and approvals = "[exResponse]" and re = exRegexp and
        am = "[exMessage [(''approved_by'', ''alice'')]]" and na = 1 and reviews = "[exResponse]" and
        rm = "[exMessage []]" and nr = 1 and trw = "fst ?out" and
        trd = "fst ?out @ take 4 ?calls" and errd = "Error ''network is unreachable''"]
      facts w' d2 [of "fst ?out"]
    by (simp add: j)
  have d3: "download exWorld [] ''out'' skipSquashRequest exPull = ([], None)"
    using t [where req = skipSquashRequest and w = exWorld and tr = "[]" and path = "''out''" and
        pull = exPull] h by simp
  from run w have "snd (In exRegexp exApi exPullFails ''out'' squashRequest) = Inl (Error ''network is unreachable'')"
    "mutations (fst (In exRegexp exApi exPullFails ''out'' squashRequest)) =
       [Init ''main'', Pull ''git://base'' ''main'' 1 False False]"
    by (simp_all add: mutations_def isMutation_def eval_nat_numeral)
  with h d1 d2 [of "[]"] d3 show ?thesis
    by (simp add: eval_nat_numeral)
qed

text \<open>
  C1, as the claim has it, fails on the request of the concrete run with the strategy
  \<open>squash\<close>: the run ends with the error of the strategy, and by then it has called
  \<open>Init\<close>, \<open>Pull\<close> and \<open>Fetch\<close> on the working copy.
\<close>

theorem invalid_tool_error_counterexample:
  "IntegrationTool (in_Params squashRequest) = ''squash'' \<and>
   snd (In exRegexp exApi exWorld ''out'' squashRequest) =
     Inl (Error ''invalid integration tool specified: squash'') \<and>
   mutations (fst (In exRegexp exApi exWorld ''out'' squashRequest)) =
     [Init ''main'', Pull ''git://base'' ''main'' 1 False False, Fetch ''git://base'' 5 1 False] \<and>
   mutations (fst (In exRegexp exApi exWorld ''out'' squashRequest)) \<noteq> []"
  using In_squash by (simp add: squashRequest_def exInRequest_def exParams_def)

end
